theory Spec2Isabelle
  imports Main "HOL-Library.Log_Nat"
begin

section \<open>Controller databases (packages/lib/src/database.ts)\<close>

text \<open>
  Modelling conventions.
  \<^item> A JavaScript number is a \<open>jsnum\<close>: a finite integer-valued double, an infinity or
    \<open>NaN\<close>. Fractional doubles are not represented, and \<open>-0\<close> is identified with \<open>0\<close>
    (the source only compares counts with \<open>!==\<close> and tests their truthiness, which do not
    tell them apart). Addition rounds to the nearest double (ties to even) and overflows to
    an infinity, as IEEE 754 does.
  \<^item> A plain object is the list of its own enumerable properties in the order in which
    \<open>Object.entries\<close>, \<open>Object.values\<close>, \<open>Object.getOwnPropertyNames\<close> and
    \<open>JSON.stringify\<close> visit them: array-index keys first, in ascending numeric order,
    then every other key in creation order. Its prototype is \<open>Object.prototype\<close>, taken as
    the language defines it: a read \<open>obj[k]\<close> of a key that is not an own property yields
    the inherited member, and an assignment \<open>obj["__proto__"] = v\<close> goes to the inherited
    setter. The built-in objects themselves are not represented: a call that assigns to a
    property of one is followed up to that assignment, which its outcome names.
  \<^item> A \<open>Map\<close> is the list of its entries in insertion order.
  \<^item> A thrown \<open>Error\<close> is a value of type \<open>error\<close>, one constructor per message of the
    source; functions that can throw return \<open>error + 'a\<close>.
\<close>

subsection \<open>Numbers\<close>

datatype jsnum = Num int | PosInf | NegInf | NaN

text \<open>Rounding of an exact integer to the nearest double (53-bit significand,
  ties to even, overflow at \<open>2 ^ 1024\<close>).\<close>

definition round_double :: "int \<Rightarrow> jsnum" where
  "round_double n =
     (let a = \<bar>n\<bar> in
      if a \<le> 2 ^ 53 then Num n
      else
        let e = bitlen a - 53;
            q = 2 ^ nat e;
            m = a div q;
            r = a mod q;
            m' = (if 2 * r > q \<or> (2 * r = q \<and> odd m) then m + 1 else m);
            v = m' * q
        in if v \<ge> 2 ^ 1024 then (if n > 0 then PosInf else NegInf)
           else Num (sgn n * v))"

fun js_add :: "jsnum \<Rightarrow> jsnum \<Rightarrow> jsnum" where
  "js_add NaN _ = NaN"
| "js_add _ NaN = NaN"
| "js_add PosInf NegInf = NaN"
| "js_add NegInf PosInf = NaN"
| "js_add PosInf _ = PosInf"
| "js_add _ PosInf = PosInf"
| "js_add NegInf _ = NegInf"
| "js_add _ NegInf = NegInf"
| "js_add (Num a) (Num b) = round_double (a + b)"

fun js_neg :: "jsnum \<Rightarrow> jsnum" where
  "js_neg (Num a) = Num (- a)"
| "js_neg PosInf = NegInf"
| "js_neg NegInf = PosInf"
| "js_neg NaN = NaN"

text \<open>Truthiness of a number: \<open>0\<close> and \<open>NaN\<close> are falsy.\<close>

fun truthy_num :: "jsnum \<Rightarrow> bool" where
  "truthy_num (Num a) = (a \<noteq> 0)"
| "truthy_num NaN = False"
| "truthy_num _ = True"

text \<open>\<open>Number.MAX_SAFE_INTEGER\<close>.\<close>

definition MAX_SAFE_INTEGER :: int where
  "MAX_SAFE_INTEGER = 2 ^ 53 - 1"

definition safe_integer :: "int \<Rightarrow> bool" where
  "safe_integer n = (\<bar>n\<bar> \<le> MAX_SAFE_INTEGER)"

subsection \<open>Values\<close>

datatype jsval =
    Undefined
  | Null
  | Bool bool
  | Number jsnum
  | String string
  | Array "jsval list"
  | Object "(string \<times> jsval) list"

fun typeof :: "jsval \<Rightarrow> string" where
  "typeof Undefined = ''undefined''"
| "typeof Null = ''object''"
| "typeof (Bool _) = ''boolean''"
| "typeof (Number _) = ''number''"
| "typeof (String _) = ''string''"
| "typeof (Array _) = ''object''"
| "typeof (Object _) = ''object''"

subsection \<open>Errors\<close>

datatype error =
    NameNotString        \<comment> \<open>"name must be a string"\<close>
  | CountNotNumber       \<comment> \<open>"count must be a number"\<close>
  | QualityNotString     \<comment> \<open>"quality must be a string"\<close>
  | KeyNotString string  \<comment> \<open>"Expected all keys to be string but got ..."\<close>
  | ExpectedObject string  \<comment> \<open>"Expected object but got ..."\<close>
  | ExpectedArray string   \<comment> \<open>"Expected array but got ..."\<close>
  | ElementsNotObjects   \<comment> \<open>"Expected all elements to be objects"\<close>
  | MissingId            \<comment> \<open>"Expected all elements to have an id property"\<close>
  | SyntaxError          \<comment> \<open>thrown by \<open>JSON.parse\<close>\<close>
  | IOError string       \<comment> \<open>file system error carrying \<open>err.code\<close>\<close>

text \<open>The specification's error classes, by the message the source throws.\<close>

fun ValidationError :: "error \<Rightarrow> bool" where
  "ValidationError NameNotString = True"
| "ValidationError CountNotNumber = True"
| "ValidationError QualityNotString = True"
| "ValidationError (KeyNotString _) = True"
| "ValidationError _ = False"

fun FormatError :: "error \<Rightarrow> bool" where
  "FormatError (ExpectedObject _) = True"
| "FormatError (ExpectedArray _) = True"
| "FormatError ElementsNotObjects = True"
| "FormatError MissingId = True"
| "FormatError _ = False"

subsection \<open>Plain objects and their own-property order\<close>

definition is_digit :: "char \<Rightarrow> bool" where
  "is_digit c = ((48::int) \<le> of_char c \<and> (of_char c :: int) \<le> 57)"

definition int_of_digits :: "string \<Rightarrow> int" where
  "int_of_digits s = foldl (\<lambda>a c. 10 * a + (of_char c - 48)) 0 s"

text \<open>An array index is the canonical decimal form of an integer below \<open>2 ^ 32 - 1\<close>.\<close>

definition is_array_index :: "string \<Rightarrow> bool" where
  "is_array_index s =
     (s \<noteq> [] \<and> list_all is_digit s \<and> (s = ''0'' \<or> hd s \<noteq> CHR ''0'')
      \<and> int_of_digits s < 2 ^ 32 - 1)"

fun ins_index :: "string \<Rightarrow> 'v \<Rightarrow> (string \<times> 'v) list \<Rightarrow> (string \<times> 'v) list" where
  "ins_index k v [] = [(k, v)]"
| "ins_index k v ((k', v') # ps) =
     (if is_array_index k' \<and> int_of_digits k' \<le> int_of_digits k
      then (k', v') # ins_index k v ps
      else (k, v) # (k', v') # ps)"

definition obj_get :: "(string \<times> 'v) list \<Rightarrow> string \<Rightarrow> 'v option" where
  "obj_get ps k = map_of ps k"

text \<open>The definition of an own property \<open>k\<close> with value \<open>v\<close>, as an object literal,
  \<open>JSON.parse\<close> and an assignment that reaches the object itself do it. A new
  array-index key goes after the array-index keys that are not greater (\<open>ins_index\<close> is
  only called with a key that is not present, so none is equal); any other new key goes
  last.\<close>

definition obj_set :: "(string \<times> 'v) list \<Rightarrow> string \<Rightarrow> 'v \<Rightarrow> (string \<times> 'v) list" where
  "obj_set ps k v =
     (if map_of ps k \<noteq> None
      then map (\<lambda>p. if fst p = k then (k, v) else p) ps
      else if is_array_index k then ins_index k v ps
      else ps @ [(k, v)])"

subsection \<open>Members inherited from \<open>Object.prototype\<close>\<close>

text \<open>The methods of \<open>Object.prototype\<close>; besides them it has the accessor
  \<open>__proto__\<close>, whose getter returns the prototype of the object.\<close>

definition object_prototype_methods :: "string list" where
  "object_prototype_methods =
     [''constructor'', ''__defineGetter__'', ''__defineSetter__'', ''hasOwnProperty'',
      ''__lookupGetter__'', ''__lookupSetter__'', ''isPrototypeOf'', ''propertyIsEnumerable'',
      ''toString'', ''valueOf'', ''toLocaleString'']"

definition inherited_key :: "string \<Rightarrow> bool" where
  "inherited_key k = (k = ''__proto__'' \<or> k \<in> set object_prototype_methods)"

text \<open>The assignment \<open>obj[k] = v\<close> on a plain object. A key that names an inherited method
  becomes an own property like any other key (the inherited property is writable). The key
  \<open>__proto__\<close>, unless it is an own property, reaches the inherited setter: that creates no
  own property, whatever the value (a value that is an object or \<open>null\<close> replaces the
  prototype, which does not change what later assignments of plain values do; any other
  value is ignored).\<close>

definition obj_assign :: "(string \<times> 'v) list \<Rightarrow> string \<Rightarrow> 'v \<Rightarrow> (string \<times> 'v) list" where
  "obj_assign ps k v =
     (if k = ''__proto__'' \<and> obj_get ps k = None then ps else obj_set ps k v)"

subsection \<open>Maps\<close>

definition map_has :: "(string \<times> 'v) list \<Rightarrow> string \<Rightarrow> bool" where
  "map_has m k = (map_of m k \<noteq> None)"

definition map_get :: "(string \<times> 'v) list \<Rightarrow> string \<Rightarrow> 'v option" where
  "map_get m k = map_of m k"

definition map_set :: "(string \<times> 'v) list \<Rightarrow> string \<Rightarrow> 'v \<Rightarrow> (string \<times> 'v) list" where
  "map_set m k v =
     (if map_of m k \<noteq> None
      then map (\<lambda>p. if fst p = k then (k, v) else p) m
      else m @ [(k, v)])"

subsection \<open>Argument checks\<close>

definition checkName :: "jsval \<Rightarrow> error + string" where
  "checkName name = (case name of String s \<Rightarrow> Inr s | _ \<Rightarrow> Inl NameNotString)"

definition checkCount :: "jsval \<Rightarrow> error + jsnum" where
  "checkCount count =
     (case count of
        Number n \<Rightarrow> (if n = NaN then Inl CountNotNumber else Inr n)
      | _ \<Rightarrow> Inl CountNotNumber)"

definition checkQuality :: "jsval \<Rightarrow> error + string" where
  "checkQuality quality = (case quality of String s \<Rightarrow> Inr s | _ \<Rightarrow> Inl QualityNotString)"

subsection \<open>Strings made by \<open>+\<close>\<close>

text \<open>The decimal digits of a non-negative integer.\<close>

definition digit_char :: "int \<Rightarrow> char" where
  "digit_char d =
     (if d = 0 then CHR ''0'' else if d = 1 then CHR ''1'' else if d = 2 then CHR ''2''
      else if d = 3 then CHR ''3'' else if d = 4 then CHR ''4'' else if d = 5 then CHR ''5''
      else if d = 6 then CHR ''6'' else if d = 7 then CHR ''7'' else if d = 8 then CHR ''8''
      else CHR ''9'')"

function digits :: "int \<Rightarrow> string" where
  "digits n = (if n < 10 then [digit_char n] else digits (n div 10) @ [digit_char (n mod 10)])"
  by pat_completeness auto
termination
  by (relation "measure nat") auto

text \<open>\<open>Number::toString\<close> for a positive integer-valued double \<open>a\<close>: the shortest digit
  string \<open>s\<close> with an exponent \<open>e\<close> such that \<open>s * 10 ^ e\<close> rounds to \<open>a\<close> (the closest
  one, the even one on a tie), printed in full below \<open>10 ^ 21\<close> and in exponent form
  from there on. Up to \<open>2 ^ 53\<close> these are the digits of \<open>a\<close> itself.\<close>

definition candidates :: "int \<Rightarrow> nat \<Rightarrow> nat \<Rightarrow> int list" where
  "candidates a l k =
     (let p = 10 ^ (l - k); lo = a div p
      in filter (\<lambda>s. round_double (s * p) = Num a) [lo, lo + 1])"

definition closest :: "int \<Rightarrow> int \<Rightarrow> int list \<Rightarrow> int" where
  "closest a p ss =
     (case ss of
        [] \<Rightarrow> a
      | [s] \<Rightarrow> s
      | s # t # _ \<Rightarrow>
          if \<bar>s * p - a\<bar> < \<bar>t * p - a\<bar> then s
          else if \<bar>t * p - a\<bar> < \<bar>s * p - a\<bar> then t
          else if even s then s else t)"

function strip_zeros :: "int \<Rightarrow> nat \<Rightarrow> int \<times> nat" where
  "strip_zeros s e =
     (if 0 < s \<and> s mod 10 = 0 then strip_zeros (s div 10) (Suc e) else (s, e))"
  by pat_completeness auto
termination
  by (relation "measure (\<lambda>(s, e). nat s)") auto

definition shortest_digits :: "int \<Rightarrow> int \<times> nat" where
  "shortest_digits a =
     (let l = length (digits a)
      in case find (\<lambda>k. candidates a l k \<noteq> []) [1..<18] of
           None \<Rightarrow> (a, 0)
         | Some k \<Rightarrow> strip_zeros (closest a (10 ^ (l - k)) (candidates a l k)) (l - k))"

definition positive_to_string :: "int \<Rightarrow> string" where
  "positive_to_string a =
     (if a \<le> 2 ^ 53 then digits a
      else
        let se = shortest_digits a; ds = digits (fst se); k = length ds; n = k + snd se
        in if n \<le> 21 then ds @ replicate (snd se) (CHR ''0'')
           else (if k = 1 then ds else hd ds # CHR ''.'' # tl ds) @ ''e+'' @ digits (int n - 1))"

fun number_to_string :: "jsnum \<Rightarrow> string" where
  "number_to_string NaN = ''NaN''"
| "number_to_string PosInf = ''Infinity''"
| "number_to_string NegInf = ''-Infinity''"
| "number_to_string (Num n) =
     (if n = 0 then ''0''
      else if n < 0 then CHR ''-'' # positive_to_string (- n)
      else positive_to_string n)"

text \<open>The string form of the method of \<open>Object.prototype\<close> at a key, as Node.js prints a
  built-in function; the method at \<open>constructor\<close> is the function \<open>Object\<close>.\<close>

definition function_source :: "string \<Rightarrow> string" where
  "function_source k =
     ''function '' @ (if k = ''constructor'' then ''Object'' else k) @ ''() { [native code] }''"

subsection \<open>ItemDatabase\<close>

text \<open>A property of a record holds a count or, once \<open>+\<close> has concatenated, a string.\<close>

datatype cell = Count jsnum | Chars string

type_synonym ItemCountWithQuality = "(string \<times> cell) list"

record ItemDatabase =
  items :: "(string \<times> ItemCountWithQuality) list"

definition empty_db :: ItemDatabase where
  "empty_db = \<lparr>items = []\<rparr>"

text \<open>\<open>get size()\<close>.\<close>

definition size_db :: "ItemDatabase \<Rightarrow> nat" where
  "size_db db = length (items db)"

text \<open>What a read \<open>record[quality]\<close> yields: \<open>undefined\<close>, the value of an own property, a
  method inherited from \<open>Object.prototype\<close>, or \<open>Object.prototype\<close> itself (from the
  getter of \<open>__proto__\<close>).\<close>

datatype looked_up = NotFound | Held cell | Method string | ObjectPrototype

definition record_get :: "ItemCountWithQuality \<Rightarrow> string \<Rightarrow> looked_up" where
  "record_get qualities quality =
     (case obj_get qualities quality of
        Some c \<Rightarrow> Held c
      | None \<Rightarrow>
          if quality = ''__proto__'' then ObjectPrototype
          else if quality \<in> set object_prototype_methods then Method quality
          else NotFound)"

text \<open>\<open>this._items.get(name)?.[quality]\<close>.\<close>

definition item_get :: "ItemDatabase \<Rightarrow> string \<Rightarrow> string \<Rightarrow> looked_up" where
  "item_get db name quality =
     (case map_get (items db) name of
        None \<Rightarrow> NotFound
      | Some qualities \<Rightarrow> record_get qualities quality)"

fun truthy :: "looked_up \<Rightarrow> bool" where
  "truthy NotFound = False"
| "truthy (Held (Count c)) = truthy_num c"
| "truthy (Held (Chars s)) = (s \<noteq> [])"
| "truthy (Method k) = True"
| "truthy ObjectPrototype = True"

definition getItemCount :: "ItemDatabase \<Rightarrow> jsval \<Rightarrow> jsval \<Rightarrow> error + looked_up" where
  "getItemCount db name quality =
     (case checkName name of
        Inl e \<Rightarrow> Inl e
      | Inr n \<Rightarrow>
         (case checkQuality quality of
            Inl e \<Rightarrow> Inl e
          | Inr q \<Rightarrow>
              if \<not> truthy (item_get db n q) then Inr (Held (Count (Num 0)))
              else Inr (item_get db n q)))"

text \<open>\<open>x ?? 0\<close>, and \<open>x + count\<close> for a number \<open>count\<close>: numeric addition when \<open>x\<close> is a
  number, string concatenation when \<open>x\<close> is a string, a function or an object.\<close>

fun or_zero :: "looked_up \<Rightarrow> looked_up" where
  "or_zero NotFound = Held (Count (Num 0))"
| "or_zero x = x"

fun plus_count :: "looked_up \<Rightarrow> jsnum \<Rightarrow> cell" where
  "plus_count (Held (Count a)) c = Count (js_add a c)"
| "plus_count (Held (Chars s)) c = Chars (s @ number_to_string c)"
| "plus_count (Method k) c = Chars (function_source k @ number_to_string c)"
| "plus_count ObjectPrototype c = Chars (''[object Object]'' @ number_to_string c)"
| "plus_count NotFound c = Count NaN"

text \<open>\<open>addItem\<close> after its three checks.\<close>

definition add_checked :: "ItemDatabase \<Rightarrow> string \<Rightarrow> jsnum \<Rightarrow> string \<Rightarrow> ItemDatabase" where
  "add_checked db n c q =
     (if \<not> map_has (items db) n
      then db\<lparr>items := map_set (items db) n (obj_set [] q (Count c))\<rparr>
      else
        let qualities = the (map_get (items db) n);
            currentCount = or_zero (record_get qualities q)
        in db\<lparr>items := map_set (items db) n (obj_assign qualities q (plus_count currentCount c))\<rparr>)"

definition addItem :: "ItemDatabase \<Rightarrow> jsval \<Rightarrow> jsval \<Rightarrow> jsval \<Rightarrow> error + ItemDatabase" where
  "addItem db name count quality =
     (case checkName name of
        Inl e \<Rightarrow> Inl e
      | Inr n \<Rightarrow>
         (case checkCount count of
            Inl e \<Rightarrow> Inl e
          | Inr c \<Rightarrow>
             (case checkQuality quality of
                Inl e \<Rightarrow> Inl e
              | Inr q \<Rightarrow> Inr (add_checked db n c q))))"

definition removeItem :: "ItemDatabase \<Rightarrow> jsval \<Rightarrow> jsval \<Rightarrow> jsval \<Rightarrow> error + ItemDatabase" where
  "removeItem db name count quality =
     (case checkCount count of Inl e \<Rightarrow> Inl e | Inr c \<Rightarrow>
        addItem db name (Number (js_neg c)) quality)"

text \<open>\<open>serialize\<close>. For an own property of \<open>qualities\<close> whose value is not 0 the loop
  reads \<open>obj[name]\<close>. When \<open>name\<close> is an own property of \<open>obj\<close> that is the record made
  for it. When it is not and \<open>name\<close> names a member of \<open>Object.prototype\<close>, the read yields
  that member, which is truthy, no record is made, and \<open>obj[name][quality] = ...\<close> assigns
  to a property of the built-in member: the outcome \<open>WritesBuiltin name quality\<close>.
  Otherwise the read yields \<open>undefined\<close>, \<open>obj[name] = {}\<close> makes the record, and the
  assignment goes to the record.\<close>

datatype 'a outcome = Returned 'a | WritesBuiltin string string

fun serialize_qualities ::
  "string \<Rightarrow> (string \<times> ItemCountWithQuality) list \<Rightarrow> ItemCountWithQuality
     \<Rightarrow> (string \<times> ItemCountWithQuality) list outcome" where
  "serialize_qualities name obj [] = Returned obj"
| "serialize_qualities name obj (qc # rest) =
     (if snd qc \<noteq> Count (Num 0)
      then
        if obj_get obj name = None \<and> inherited_key name then WritesBuiltin name (fst qc)
        else
          let obj' = (if obj_get obj name = None then obj_set obj name [] else obj)
          in serialize_qualities name
               (obj_set obj' name (obj_assign (the (obj_get obj' name)) (fst qc) (snd qc))) rest
      else serialize_qualities name obj rest)"

fun serialize_items ::
  "(string \<times> ItemCountWithQuality) list \<Rightarrow> (string \<times> ItemCountWithQuality) list
     \<Rightarrow> (string \<times> ItemCountWithQuality) list outcome" where
  "serialize_items obj [] = Returned obj"
| "serialize_items obj (nq # rest) =
     (case serialize_qualities (fst nq) obj (snd nq) of
        Returned obj' \<Rightarrow> serialize_items obj' rest
      | WritesBuiltin name quality \<Rightarrow> WritesBuiltin name quality)"

definition serialize :: "ItemDatabase \<Rightarrow> (string \<times> ItemCountWithQuality) list outcome" where
  "serialize db = serialize_items [] (items db)"

text \<open>\<open>getEntries\<close>: the entries of the internal store.\<close>

definition getEntries :: "ItemDatabase \<Rightarrow> (string \<times> ItemCountWithQuality) list" where
  "getEntries db = items db"

text \<open>The constructor. A per-item value of the serialized object is either a number or an
  object (the two shapes of the snapshot format); the values of such an object are
  arbitrary until \<open>checkCount\<close> has accepted them.\<close>

datatype entry = Bare jsnum | Qualities "(string \<times> jsval) list"

fun check_counts :: "jsval list \<Rightarrow> error + jsnum list" where
  "check_counts [] = Inr []"
| "check_counts (v # vs) =
     (case checkCount v of
        Inl e \<Rightarrow> Inl e
      | Inr c \<Rightarrow> (case check_counts vs of Inl e \<Rightarrow> Inl e | Inr cs \<Rightarrow> Inr (c # cs)))"

fun construct :: "ItemDatabase \<Rightarrow> (string \<times> entry) list \<Rightarrow> error + ItemDatabase" where
  "construct db [] = Inr db"
| "construct db ((name, v) # rest) =
     (case checkName (String name) of
        Inl e \<Rightarrow> Inl e
      | Inr n \<Rightarrow>
         (let qualities = (case v of Bare c \<Rightarrow> obj_set [] ''normal'' (Number c) | Qualities r \<Rightarrow> r)
          in case check_counts (map snd qualities) of
               Inl e \<Rightarrow> Inl e
             | Inr counts \<Rightarrow>
                 construct
                   (db\<lparr>items := map_set (items db) n (zip (map fst qualities) (map Count counts))\<rparr>)
                   rest))"

definition constructor :: "(string \<times> entry) list option \<Rightarrow> error + ItemDatabase" where
  "constructor serialized =
     (case serialized of None \<Rightarrow> Inr empty_db | Some entries \<Rightarrow> construct empty_db entries)"

text \<open>\<open>Object.entries\<close> of an object returned by \<open>serialize\<close>, as the constructor reads it.\<close>

fun cell_value :: "cell \<Rightarrow> jsval" where
  "cell_value (Count c) = Number c"
| "cell_value (Chars s) = String s"

definition snapshot_of :: "(string \<times> ItemCountWithQuality) list \<Rightarrow> (string \<times> entry) list" where
  "snapshot_of obj = map (\<lambda>nq. (fst nq, Qualities (map (\<lambda>qc. (fst qc, cell_value (snd qc))) (snd nq)))) obj"

subsection \<open>JSON and the file system\<close>

text \<open>
  \<open>JSON.parse\<close>, \<open>JSON.stringify\<close> and \<open>fs.readFile\<close> belong to the platform. A JSON
  text is represented by its syntax tree (numbers being integer literals) together with
  the indentation it was printed with; \<open>Malformed\<close> stands for any text that
  \<open>JSON.parse\<close> rejects.
\<close>

datatype json =
    JNull
  | JBool bool
  | JNumber int
  | JString string
  | JArray "json list"
  | JObject "(string \<times> json) list"

datatype content = Document string json | Malformed

text \<open>\<open>JSON.stringify\<close> on values: \<open>undefined\<close> has no JSON text (it is dropped from an
  object and printed as \<open>null\<close> in an array); \<open>NaN\<close> and the infinities are printed as
  \<open>null\<close>; the properties of an object are printed in own-property order.\<close>

fun to_json :: "jsval \<Rightarrow> json option"
  and to_json_elements :: "jsval list \<Rightarrow> json list"
  and to_json_properties :: "(string \<times> jsval) list \<Rightarrow> (string \<times> json) list" where
  "to_json Undefined = None"
| "to_json Null = Some JNull"
| "to_json (Bool b) = Some (JBool b)"
| "to_json (Number n) = Some (case n of Num i \<Rightarrow> JNumber i | _ \<Rightarrow> JNull)"
| "to_json (String s) = Some (JString s)"
| "to_json (Array vs) = Some (JArray (to_json_elements vs))"
| "to_json (Object ps) = Some (JObject (to_json_properties ps))"
| "to_json_elements [] = []"
| "to_json_elements (v # vs) =
     (case to_json v of None \<Rightarrow> JNull | Some j \<Rightarrow> j) # to_json_elements vs"
| "to_json_properties [] = []"
| "to_json_properties (kv # ps) =
     (case to_json (snd kv) of
        None \<Rightarrow> to_json_properties ps
      | Some j \<Rightarrow> (fst kv, j) # to_json_properties ps)"

text \<open>\<open>JSON.stringify(obj, null, indent)\<close> for an object \<open>obj\<close>.\<close>

definition JSON_stringify :: "(string \<times> jsval) list \<Rightarrow> string \<Rightarrow> content" where
  "JSON_stringify obj indent = Document indent (JObject (to_json_properties obj))"

text \<open>\<open>JSON.parse\<close>: a number literal becomes the nearest double; the members of an object
  are defined one after the other on a fresh object.\<close>

fun from_json :: "json \<Rightarrow> jsval"
  and from_json_elements :: "json list \<Rightarrow> jsval list"
  and from_json_members :: "(string \<times> jsval) list \<Rightarrow> (string \<times> json) list \<Rightarrow> (string \<times> jsval) list"
  where
  "from_json JNull = Null"
| "from_json (JBool b) = Bool b"
| "from_json (JNumber i) = Number (round_double i)"
| "from_json (JString s) = String s"
| "from_json (JArray js) = Array (from_json_elements js)"
| "from_json (JObject ms) = Object (from_json_members [] ms)"
| "from_json_elements [] = []"
| "from_json_elements (j # js) = from_json j # from_json_elements js"
| "from_json_members obj [] = obj"
| "from_json_members obj (kj # ms) = from_json_members (obj_set obj (fst kj) (from_json (snd kj))) ms"

definition JSON_parse :: "content \<Rightarrow> error + jsval" where
  "JSON_parse text = (case text of Malformed \<Rightarrow> Inl SyntaxError | Document indent j \<Rightarrow> Inr (from_json j))"

text \<open>A path holds a file, or reading it fails with an error code; the code of a path
  that does not exist is \<open>ENOENT\<close>.\<close>

datatype fs_entry = Absent | Unreadable string | File content

type_synonym filesystem = "string \<Rightarrow> fs_entry"

definition readFile :: "filesystem \<Rightarrow> string \<Rightarrow> error + content" where
  "readFile fs filePath =
     (case fs filePath of
        Absent \<Rightarrow> Inl (IOError ''ENOENT'')
      | Unreadable code \<Rightarrow> Inl (IOError code)
      | File text \<Rightarrow> Inr text)"

text \<open>\<open>err.code\<close>; the errors thrown by this module and by \<open>JSON.parse\<close> have none.\<close>

fun err_code :: "error \<Rightarrow> string option" where
  "err_code (IOError code) = Some code"
| "err_code _ = None"

text \<open>Modelled from the spec: \<open>safeOutputFile\<close> of \<open>lib/file_ops\<close> is not among the
  sources. The specification describes it as the durable write: given a path and string
  content it creates missing parent directories and atomically replaces the content of
  the file.\<close>

definition safeOutputFile :: "filesystem \<Rightarrow> string \<Rightarrow> content \<Rightarrow> filesystem" where
  "safeOutputFile fs filePath text = fs(filePath := File text)"

text \<open>Modelled from the spec: \<open>basicType\<close> of \<open>lib/helpers\<close> is not among the sources. The
  specification has the object loader reject arrays, scalars and \<open>null\<close> and the array
  loader accept arrays only, so \<open>basicType\<close> is \<open>typeof\<close> with \<open>null\<close> and arrays told
  apart from objects.\<close>

fun basicType :: "jsval \<Rightarrow> string" where
  "basicType Null = ''null''"
| "basicType (Array vs) = ''array''"
| "basicType v = typeof v"

subsection \<open>Maps with arbitrary keys\<close>

text \<open>Keys of a \<open>Map\<close> are compared by SameValueZero: primitives by value, objects and
  arrays by identity. Values here carry no identity; every object or array met as a key
  is a fresh one (the elements of a parsed array), so it equals no other key.\<close>

fun primitive :: "jsval \<Rightarrow> bool" where
  "primitive (Array vs) = False"
| "primitive (Object ps) = False"
| "primitive v = True"

definition same_value_zero :: "jsval \<Rightarrow> jsval \<Rightarrow> bool" where
  "same_value_zero a b = (primitive a \<and> a = b)"


definition jsmap_set :: "(jsval \<times> 'v) list \<Rightarrow> jsval \<Rightarrow> 'v \<Rightarrow> (jsval \<times> 'v) list" where
  "jsmap_set m k v =
     (if list_ex (\<lambda>p. same_value_zero (fst p) k) m
      then map (\<lambda>p. if same_value_zero (fst p) k then (fst p, v) else p) m
      else m @ [(k, v)])"

text \<open>\<open>new Map(entries)\<close>.\<close>

definition new_Map :: "(jsval \<times> 'v) list \<Rightarrow> (jsval \<times> 'v) list" where
  "new_Map entries = foldl (\<lambda>m kv. jsmap_set m (fst kv) (snd kv)) [] entries"

text \<open>\<open>Object.entries\<close>.\<close>

definition Object_entries :: "(string \<times> 'v) list \<Rightarrow> (jsval \<times> 'v) list" where
  "Object_entries obj = map (\<lambda>kv. (String (fst kv), snd kv)) obj"

subsection \<open>The map codec\<close>

fun mapToObject_loop ::
  "(string \<times> jsval) list \<Rightarrow> (jsval \<times> jsval) list \<Rightarrow> error + (string \<times> jsval) list" where
  "mapToObject_loop obj [] = Inr obj"
| "mapToObject_loop obj (kv # rest) =
     (case fst kv of
        String key \<Rightarrow> mapToObject_loop (obj_assign obj key (snd kv)) rest
      | _ \<Rightarrow> Inl (KeyNotString (typeof (fst kv))))"

definition mapToObject :: "(jsval \<times> jsval) list \<Rightarrow> error + (string \<times> jsval) list" where
  "mapToObject m = mapToObject_loop [] m"

text \<open>The \<open>catch\<close> clause of both loaders.\<close>

definition catch_ENOENT :: "error + (jsval \<times> jsval) list \<Rightarrow> error + (jsval \<times> jsval) list" where
  "catch_ENOENT result =
     (case result of
        Inl err \<Rightarrow> if err_code err = Some ''ENOENT'' then Inr [] else Inl err
      | Inr m \<Rightarrow> Inr m)"

text \<open>The own properties of a parsed value that is an object, and the elements of one
  that is an array.\<close>

fun own_properties :: "jsval \<Rightarrow> (string \<times> jsval) list" where
  "own_properties (Object ps) = ps"
| "own_properties _ = []"


definition loadJsonAsMap :: "filesystem \<Rightarrow> string \<Rightarrow> error + (jsval \<times> jsval) list" where
  "loadJsonAsMap fs filePath =
     catch_ENOENT
       (case readFile fs filePath of
          Inl err \<Rightarrow> Inl err
        | Inr text \<Rightarrow>
           (case JSON_parse text of
              Inl err \<Rightarrow> Inl err
            | Inr parsed \<Rightarrow>
                if basicType parsed \<noteq> ''object'' then Inl (ExpectedObject (basicType parsed))
                else Inr (new_Map (Object_entries (own_properties parsed)))))"

text \<open>The state of the file system after the call, and the error if it threw.\<close>

definition saveMapAsJson ::
  "filesystem \<Rightarrow> string \<Rightarrow> (jsval \<times> jsval) list \<Rightarrow> error option \<times> filesystem" where
  "saveMapAsJson fs filePath m =
     (case mapToObject m of
        Inl err \<Rightarrow> (Some err, fs)
      | Inr obj \<Rightarrow> (None, safeOutputFile fs filePath (JSON_stringify obj [CHR 0x09])))"




subsection \<open>Calls on a ledger\<close>

text \<open>The public operations, and the state a call leaves behind whether it returns or
  throws: every check of \<open>addItem\<close> and \<open>removeItem\<close> precedes the first write, so a
  call that throws leaves the store as it was.\<close>

datatype call =
    GetItemCount jsval jsval
  | AddItem jsval jsval jsval
  | RemoveItem jsval jsval jsval
  | Serialize
  | GetEntries

fun after_call :: "ItemDatabase \<Rightarrow> call \<Rightarrow> ItemDatabase" where
  "after_call db (GetItemCount name quality) = db"
| "after_call db (AddItem name count quality) =
     (case addItem db name count quality of Inl e \<Rightarrow> db | Inr db' \<Rightarrow> db')"
| "after_call db (RemoveItem name count quality) =
     (case removeItem db name count quality of Inl e \<Rightarrow> db | Inr db' \<Rightarrow> db')"
| "after_call db Serialize = db"
| "after_call db GetEntries = db"

definition after_calls :: "ItemDatabase \<Rightarrow> call list \<Rightarrow> ItemDatabase" where
  "after_calls db cs = foldl after_call db cs"

subsection \<open>Notions used to state the properties\<close>


text \<open>The own property of the record of a name at a quality, if there is one.\<close>

definition stored :: "ItemDatabase \<Rightarrow> string \<Rightarrow> string \<Rightarrow> cell option" where
  "stored db name quality =
     (case map_get (items db) name of
        None \<Rightarrow> None
      | Some qualities \<Rightarrow> obj_get qualities quality)"







text \<open>The legacy migration in the words of the specification: a bare number \<open>n\<close> stands
  for the per-quality record \<open>{ "normal": n }\<close>; a per-quality record stands for itself.\<close>

fun legacy_migration :: "string \<times> entry \<Rightarrow> string \<times> entry" where
  "legacy_migration (name, Bare n) = (name, Qualities [(''normal'', Number n)])"
| "legacy_migration (name, Qualities r) = (name, Qualities r)"

text \<open>Every count of a snapshot passes \<open>checkCount\<close>.\<close>

fun counts_valid :: "(string \<times> entry) list \<Rightarrow> bool" where
  "counts_valid [] = True"
| "counts_valid ((name, Bare n) # es) = (n \<noteq> NaN \<and> counts_valid es)"
| "counts_valid ((name, Qualities r) # es) =
     (list_all (\<lambda>v. case checkCount v of Inl e \<Rightarrow> False | Inr c \<Rightarrow> True) (map snd r)
      \<and> counts_valid es)"

text \<open>A key list in own-property order: once a key is not an array index no array index
  follows, and the array indices ascend.\<close>

fun js_ordered :: "string list \<Rightarrow> bool" where
  "js_ordered [] = True"
| "js_ordered [k] = True"
| "js_ordered (k # k' # ks) =
     ((if is_array_index k' then is_array_index k \<and> int_of_digits k \<le> int_of_digits k' else True)
      \<and> js_ordered (k' # ks))"

definition nf_obj :: "(string \<times> 'v) list \<Rightarrow> bool" where
  "nf_obj ps = (distinct (map fst ps) \<and> js_ordered (map fst ps))"

text \<open>Notions for the map codec. A key that is a string, read as one; an array element
  that is an object with a defined \<open>id\<close>; the last element of an array whose \<open>id\<close> is a
  given key; and the values that a JSON text can carry: no \<open>undefined\<close>, no \<open>NaN\<close> or
  infinity, every number a double, every object in own-property order.\<close>

fun string_of :: "jsval \<Rightarrow> string" where
  "string_of (String s) = s"
| "string_of _ = []"

definition string_keyed :: "(jsval \<times> 'v) list \<Rightarrow> (string \<times> 'v) list" where
  "string_keyed m = map (\<lambda>kv. (string_of (fst kv), snd kv)) m"



fun json_value :: "jsval \<Rightarrow> bool"
  and json_values :: "jsval list \<Rightarrow> bool"
  and json_properties :: "(string \<times> jsval) list \<Rightarrow> bool" where
  "json_value Undefined = False"
| "json_value Null = True"
| "json_value (Bool b) = True"
| "json_value (Number n) = (case n of Num i \<Rightarrow> round_double i = Num i | _ \<Rightarrow> False)"
| "json_value (String s) = True"
| "json_value (Array vs) = json_values vs"
| "json_value (Object ps) = (nf_obj ps \<and> json_properties ps)"
| "json_values [] = True"
| "json_values (v # vs) = (json_value v \<and> json_values vs)"
| "json_properties [] = True"
| "json_properties (kv # ps) = (json_value (snd kv) \<and> json_properties ps)"

text \<open>All keys are strings.\<close>

definition string_keys :: "(jsval \<times> 'v) list \<Rightarrow> bool" where
  "string_keys m = list_all (\<lambda>kv. typeof (fst kv) = ''string'') m"



text \<open>No key is the string \<open>__proto__\<close>; and a property whose key is not an array
  index.\<close>

definition proto_free :: "(jsval \<times> 'v) list \<Rightarrow> bool" where
  "proto_free m = list_all (\<lambda>kv. fst kv \<noteq> String ''__proto__'') m"

definition plain_key :: "string \<times> 'v \<Rightarrow> bool" where
  "plain_key kv = (\<not> is_array_index (fst kv))"

text \<open>File systems used as examples.\<close>

definition fs0 :: filesystem where
  "fs0 = (\<lambda>p. Absent)(''/db/list.json'' := File (Document [CHR 0x09] (JArray [JNumber 1, JNumber 2, JNumber 3])),
          ''/db/locked.json'' := Unreadable ''EACCES'',
          ''/db/broken.json'' := File Malformed,
          ''/db/users.json'' := File (Document [CHR 0x09] (JObject [(''b'', JNumber 1), (''a'', JNull)])))"


section \<open>Properties of the item database\<close>

subsection \<open>Lookups after updates\<close>

lemma map_of_replace:
  "map_of (map (\<lambda>p. if fst p = k then (k, v) else p) ps) k' =
     (if k' = k then (if map_of ps k = None then None else Some v) else map_of ps k')"
  by (induction ps) auto

lemma map_of_ins_index:
  "map_of ps k = None \<Longrightarrow> map_of (ins_index k v ps) k' = (if k' = k then Some v else map_of ps k')"
  by (induction ps) (auto split: if_splits)

lemma obj_get_obj_set:
  "obj_get (obj_set ps k v) k' = (if k' = k then Some v else obj_get ps k')"
  by (auto simp: obj_get_def obj_set_def map_of_replace map_of_ins_index map_add_def split: option.splits)

lemma map_get_map_set:
  "map_get (map_set m k v) k' = (if k' = k then Some v else map_get m k')"
  by (auto simp: map_get_def map_set_def map_of_replace map_add_def split: option.splits)

lemma map_has_map_set: "map_has (map_set m k v) k' = (k' = k \<or> map_has m k')"
  by (auto simp: map_has_def map_set_def map_of_replace map_add_def split: option.splits)

lemma map_has_get: "map_has m k = (map_get m k \<noteq> None)"
  by (simp add: map_has_def map_get_def)

lemma round_double_safe: "safe_integer k \<Longrightarrow> round_double k = Num k"
  by (simp add: safe_integer_def MAX_SAFE_INTEGER_def round_double_def)

lemma round_double_0: "round_double 0 = Num 0"
  by (simp add: round_double_def)

subsection \<open>Names stay resident\<close>

lemma map_fst_replace: "map fst (map (\<lambda>p. if fst p = k then (k, v) else p) m) = map fst m"
  by (induction m) auto

lemma map_has_iff: "map_has m k = (k \<in> set (map fst m))"
  by (simp add: map_has_def map_of_eq_None_iff)

lemma keys_map_set:
  "map fst (map_set m k v) = (if map_has m k then map fst m else map fst m @ [k])"
  by (simp add: map_set_def map_has_def map_fst_replace)

lemma keys_add_checked:
  "map fst (items (add_checked db n c q)) =
     (if map_has (items db) n then map fst (items db) else map fst (items db) @ [n])"
  by (simp add: add_checked_def keys_map_set Let_def)

lemma addItem_keys:
  "addItem db name count quality = Inr db' \<Longrightarrow>
     \<exists>ks. map fst (items db') = map fst (items db) @ ks"
  by (auto simp: addItem_def keys_add_checked split: sum.splits)

lemma after_call_keys: "\<exists>ks. map fst (items (after_call db c)) = map fst (items db) @ ks"
proof (cases c)
  case (AddItem name count quality)
  then show ?thesis
    by (cases "addItem db name count quality") (auto dest: addItem_keys)
next
  case (RemoveItem name count quality)
  then show ?thesis
    by (cases "removeItem db name count quality")
      (auto simp: removeItem_def dest: addItem_keys split: sum.splits)
qed simp_all

lemma after_calls_keys: "\<exists>ks. map fst (items (after_calls db cs)) = map fst (items db) @ ks"
  unfolding after_calls_def
proof (induction cs arbitrary: db)
  case Nil
  show ?case by simp
next
  case (Cons c cs)
  obtain ks where 1: "map fst (items (after_call db c)) = map fst (items db) @ ks"
    using after_call_keys by blast
  obtain ks' where "map fst (items (foldl after_call (after_call db c) cs))
      = map fst (items (after_call db c)) @ ks'"
    using Cons.IH by blast
  with 1 show ?case by simp
qed

text \<open>
  Claim C10. Whatever sequence of \<open>getItemCount\<close>, \<open>addItem\<close>, \<open>removeItem\<close>,
  \<open>serialize\<close> and \<open>getEntries\<close> calls is made, returning or throwing, the names of the
  store afterwards are the names before, in the same order, followed by the new ones: every
  name resident before is resident after, and \<open>size\<close> does not decrease.
\<close>

theorem names_never_removed:
  "(\<exists>ks. map fst (items (after_calls db cs)) = map fst (items db) @ ks) \<and>
   (\<forall>n. map_has (items db) n \<longrightarrow> map_has (items (after_calls db cs)) n) \<and>
   size_db db \<le> size_db (after_calls db cs)"
proof -
  obtain ks where ks: "map fst (items (after_calls db cs)) = map fst (items db) @ ks"
    using after_calls_keys by blast
  have "length (map fst (items db)) \<le> length (map fst (items (after_calls db cs)))"
    unfolding ks by simp
  then have "size_db db \<le> size_db (after_calls db cs)"
    by (simp add: size_db_def)
  moreover have "\<forall>n. map_has (items db) n \<longrightarrow> map_has (items (after_calls db cs)) n"
    by (simp add: map_has_iff ks del: set_map)
  ultimately show ?thesis using ks by blast
qed

theorem names_never_removed_witness:
  "map_has (items \<lparr>items = [(''plate'', [(''normal'', Count (Num 3))])]\<rparr>) ''plate'' \<and>
   map_has (items (after_calls \<lparr>items = [(''plate'', [(''normal'', Count (Num 3))])]\<rparr>
      [RemoveItem (String ''plate'') (Number (Num 3)) (String ''normal''),
       AddItem (String ''gear'') Null (String ''normal''), Serialize])) ''plate'' \<and>
   size_db \<lparr>items = [(''plate'', [(''normal'', Count (Num 3))])]\<rparr> \<le>
     size_db (after_calls \<lparr>items = [(''plate'', [(''normal'', Count (Num 3))])]\<rparr>
      [RemoveItem (String ''plate'') (Number (Num 3)) (String ''normal''),
       AddItem (String ''gear'') Null (String ''normal''), Serialize])"
proof -
  have h: "map_has (items \<lparr>items = [(''plate'', [(''normal'', Count (Num 3))])]\<rparr>) ''plate''"
    by (simp add: map_has_def)
  from names_never_removed [of "\<lparr>items = [(''plate'', [(''normal'', Count (Num 3))])]\<rparr>"
      "[RemoveItem (String ''plate'') (Number (Num 3)) (String ''normal''),
       AddItem (String ''gear'') Null (String ''normal''), Serialize]"] h
  show ?thesis by blast
qed

subsection \<open>The constructor\<close>

lemma checkCount_Inr: "checkCount v = Inr c \<Longrightarrow> v = Number c \<and> c \<noteq> NaN"
  by (cases v) (auto simp: checkCount_def split: if_splits)

lemma check_counts_zip:
  "check_counts (map snd r) = Inr cs \<Longrightarrow>
     map (\<lambda>qc. (fst qc, cell_value (snd qc))) (zip (map fst r) (map Count cs)) = r"
proof (induction r arbitrary: cs)
  case Nil
  then show ?case by simp
next
  case (Cons p r)
  then show ?case
    by (cases p) (auto split: sum.splits dest: checkCount_Inr)
qed

lemma obj_set_empty: "obj_set [] k v = [(k, v)]"
  by (simp add: obj_set_def)

lemma map_set_fresh: "\<not> map_has m k \<Longrightarrow> map_set m k v = m @ [(k, v)]"
  by (simp add: map_set_def map_has_def)

lemma snapshot_of_append: "snapshot_of (a @ b) = snapshot_of a @ snapshot_of b"
  by (simp add: snapshot_of_def)

lemma construct_snapshot:
  "construct db es = Inr db' \<Longrightarrow> distinct (map fst es) \<Longrightarrow>
   list_all (\<lambda>n. \<not> map_has (items db) n) (map fst es) \<Longrightarrow>
   snapshot_of (items db') = snapshot_of (items db) @ map legacy_migration es"
proof (induction es arbitrary: db)
  case Nil
  then show ?case by simp
next
  case (Cons ne es)
  obtain name v where ne: "ne = (name, v)" by (cases ne)
  define qualities where
    "qualities = (case v of Bare c \<Rightarrow> obj_set [] ''normal'' (Number c) | Qualities r \<Rightarrow> r)"
  from Cons.prems(1) obtain counts where
    cc: "check_counts (map snd qualities) = Inr counts" and
    rest: "construct (db\<lparr>items := map_set (items db) name
               (zip (map fst qualities) (map Count counts))\<rparr>) es = Inr db'"
    by (auto simp: ne checkName_def qualities_def Let_def split: sum.splits)
  let ?db1 = "db\<lparr>items := map_set (items db) name (zip (map fst qualities) (map Count counts))\<rparr>"
  from Cons.prems(3) have fresh: "\<not> map_has (items db) name"
    by (simp add: ne)
  then have it1: "items ?db1 = items db @ [(name, zip (map fst qualities) (map Count counts))]"
    by (simp add: map_set_fresh)
  have mig: "legacy_migration ne = (name, Qualities qualities)"
    by (cases v) (simp_all add: ne qualities_def obj_set_empty)
  have snap1: "snapshot_of (items ?db1) = snapshot_of (items db) @ [legacy_migration ne]"
    by (simp add: it1 snapshot_of_append mig) (simp add: snapshot_of_def check_counts_zip [OF cc])
  have "list_all (\<lambda>n. \<not> map_has (items ?db1) n) (map fst es)"
    using Cons.prems(2,3) by (auto simp: ne it1 map_has_iff list_all_iff)
  with Cons.IH [OF rest] Cons.prems(2)
  have "snapshot_of (items db') = snapshot_of (items ?db1) @ map legacy_migration es"
    by simp
  with snap1 show ?case by simp
qed

lemma check_counts_total:
  "list_all (\<lambda>v. case checkCount v of Inl e \<Rightarrow> False | Inr c \<Rightarrow> True) vs \<Longrightarrow>
     \<exists>cs. check_counts vs = Inr cs"
  by (induction vs) (auto split: sum.splits)

lemma construct_total: "counts_valid es \<Longrightarrow> \<exists>db'. construct db es = Inr db'"
proof (induction es arbitrary: db rule: counts_valid.induct)
  case 1
  show ?case by simp
next
  case (2 name n es)
  then show ?case
    by (simp add: checkName_def obj_set_empty checkCount_def)
next
  case (3 name r es)
  then obtain cs where "check_counts (map snd r) = Inr cs"
    using check_counts_total by fastforce
  with 3 show ?case
    by (simp add: checkName_def)
qed

text \<open>
  Claim C4. The constructor succeeds on every snapshot whose counts are numbers other than
  \<open>NaN\<close>, and whenever it succeeds the store it builds, read back as a snapshot, is the
  given snapshot with each bare number \<open>n\<close> replaced by \<open>{ "normal": n }\<close> and nothing
  else changed. The witness constructs from \<open>{ "wood": 5 }\<close> and reads 5 for
  \<open>("wood", "normal")\<close>.
\<close>

theorem constructor_legacy_migration:
  "(counts_valid es \<longrightarrow> (\<exists>db. constructor (Some es) = Inr db)) \<and>
   (\<forall>db. constructor (Some es) = Inr db \<and> distinct (map fst es) \<longrightarrow>
      snapshot_of (items db) = map legacy_migration es)"
proof (intro conjI allI impI)
  assume "counts_valid es"
  then show "\<exists>db. constructor (Some es) = Inr db"
    by (simp add: constructor_def construct_total)
next
  fix db assume a: "constructor (Some es) = Inr db \<and> distinct (map fst es)"
  then have "construct empty_db es = Inr db" by (simp add: constructor_def)
  from construct_snapshot [OF this] a
  show "snapshot_of (items db) = map legacy_migration es"
    by (simp add: empty_db_def map_has_def list_all_iff snapshot_of_def)
qed

theorem constructor_legacy_migration_witness:
  "counts_valid [(''wood'', Bare (Num 5))] \<and> distinct (map fst [(''wood'', Bare (Num 5))]) \<and>
   constructor (Some [(''wood'', Bare (Num 5))]) = Inr \<lparr>items = [(''wood'', [(''normal'', Count (Num 5))])]\<rparr> \<and>
   snapshot_of (items \<lparr>items = [(''wood'', [(''normal'', Count (Num 5))])]\<rparr>) =
     map legacy_migration [(''wood'', Bare (Num 5))] \<and>
   getItemCount \<lparr>items = [(''wood'', [(''normal'', Count (Num 5))])]\<rparr> (String ''wood'') (String ''normal'')
     = Inr (Held (Count (Num 5)))"
proof -
  have c: "constructor (Some [(''wood'', Bare (Num 5))])
             = Inr \<lparr>items = [(''wood'', [(''normal'', Count (Num 5))])]\<rparr>"
    by (simp add: constructor_def empty_db_def checkName_def checkCount_def obj_set_def
        map_set_def)
  have g: "getItemCount \<lparr>items = [(''wood'', [(''normal'', Count (Num 5))])]\<rparr> (String ''wood'')
             (String ''normal'') = Inr (Held (Count (Num 5)))"
    by (simp add: getItemCount_def checkName_def checkQuality_def item_get_def record_get_def
        map_get_def obj_get_def)
  have v: "counts_valid [(''wood'', Bare (Num 5))]" by simp
  from constructor_legacy_migration [of "[(''wood'', Bare (Num 5))]"] c g v
  show ?thesis by simp
qed

subsection \<open>Adding and removing\<close>

lemma getItemCount_strings:
  "getItemCount db (String n) (String q) =
     Inr (if truthy (item_get db n q) then item_get db n q else Held (Count (Num 0)))"
  by (simp add: getItemCount_def checkName_def checkQuality_def)

lemma addItem_strings:
  "c \<noteq> NaN \<Longrightarrow> addItem db (String n) (Number c) (String q) = Inr (add_checked db n c q)"
  by (simp add: addItem_def checkName_def checkCount_def checkQuality_def)

lemma removeItem_strings:
  "c \<noteq> NaN \<Longrightarrow> removeItem db (String n) (Number c) (String q) = Inr (add_checked db n (js_neg c) q)"
  by (cases c) (simp_all add: removeItem_def addItem_def checkName_def checkCount_def checkQuality_def)

lemma record_get_obj_set: "record_get (obj_set r q v) q = Held v"
  by (simp add: record_get_def obj_get_obj_set)

lemma map_has_add_checked:
  "map_has (items (add_checked db n c q)) n' = (n' = n \<or> map_has (items db) n')"
  by (simp add: add_checked_def map_has_map_set Let_def)

lemma item_get_add_checked:
  assumes "or_zero (item_get db n q) = Held (Count a)"
  shows "item_get (add_checked db n c q) n q =
           Held (Count (if map_has (items db) n then js_add a c else c))"
proof (cases "map_get (items db) n")
  case None
  then show ?thesis
    by (simp add: item_get_def add_checked_def map_has_get map_get_map_set record_get_obj_set)
next
  case (Some r)
  from assms Some have r: "or_zero (record_get r q) = Held (Count a)"
    by (simp add: item_get_def)
  have "record_get (obj_assign r q (plus_count (or_zero (record_get r q)) c)) q
          = Held (Count (js_add a c))"
  proof (cases "obj_get r q")
    case None
    with r have "q \<noteq> ''__proto__''"
      by (auto simp: record_get_def split: if_splits)
    with r show ?thesis
      by (simp add: obj_assign_def record_get_obj_set)
  next
    case (Some x)
    with r show ?thesis
      by (simp add: obj_assign_def record_get_obj_set)
  qed
  with Some show ?thesis
    by (simp add: item_get_def add_checked_def map_has_get map_get_map_set Let_def)
qed

text \<open>
  Claim C1, for safe integers. When the value read for \<open>(n, q)\<close>, taken as 0 when the
  ledger has no record for \<open>n\<close> or the record yields nothing for \<open>q\<close>, is an integer \<open>x\<close>,
  and \<open>x\<close>, the count \<open>k\<close> and \<open>x + k\<close> are safe integers, \<open>addItem(n, k, q)\<close> followed by
  \<open>removeItem(n, k, q)\<close> both return, and \<open>getItemCount(n, q)\<close> is afterwards what it was
  before.
\<close>

theorem add_then_remove_restores_count:
  assumes x: "or_zero (item_get db n q) = Held (Count (Num x))"
    and sx: "safe_integer x" and sk: "safe_integer k" and sxk: "safe_integer (x + k)"
  shows "\<exists>db1 db2.
           addItem db (String n) (Number (Num k)) (String q) = Inr db1 \<and>
           removeItem db1 (String n) (Number (Num k)) (String q) = Inr db2 \<and>
           getItemCount db2 (String n) (String q) = getItemCount db (String n) (String q)"
proof -
  let ?db1 = "add_checked db n (Num k) q"
  let ?db2 = "add_checked ?db1 n (Num (- k)) q"
  have a: "addItem db (String n) (Number (Num k)) (String q) = Inr ?db1"
    by (simp add: addItem_strings)
  have r: "removeItem ?db1 (String n) (Number (Num k)) (String q) = Inr ?db2"
    by (simp add: removeItem_strings)
  have g1: "item_get ?db1 n q = Held (Count (Num (if map_has (items db) n then x + k else k)))"
    using sxk by (simp add: item_get_add_checked [OF x] round_double_safe)
  then have "or_zero (item_get ?db1 n q)
      = Held (Count (Num (if map_has (items db) n then x + k else k)))"
    by simp
  from item_get_add_checked [OF this, of "Num (- k)"]
  have g2: "item_get ?db2 n q = Held (Count (Num (if map_has (items db) n then x else 0)))"
    using sx by (simp add: map_has_add_checked round_double_safe round_double_0)
  have "getItemCount ?db2 (String n) (String q) = getItemCount db (String n) (String q)"
  proof (cases "map_has (items db) n")
    case True
    show ?thesis
    proof (cases "item_get db n q = NotFound")
      case True
      with x have "x = 0" by simp
      with True \<open>map_has (items db) n\<close> g2 show ?thesis
        by (simp add: getItemCount_strings)
    next
      case False
      with x have "item_get db n q = Held (Count (Num x))"
        by (cases "item_get db n q") simp_all
      with True g2 show ?thesis
        by (simp add: getItemCount_strings)
    qed
  next
    case False
    then have "item_get db n q = NotFound"
      by (simp add: item_get_def map_has_get)
    with False g2 show ?thesis
      by (simp add: getItemCount_strings)
  qed
  with a r show ?thesis by blast
qed

theorem add_then_remove_restores_count_witness:
  "or_zero (item_get \<lparr>items = [(''iron-plate'', [(''normal'', Count (Num 7))])]\<rparr> ''iron-plate'' ''normal'')
     = Held (Count (Num 7)) \<and>
   safe_integer 7 \<and> safe_integer 3 \<and> safe_integer (7 + 3) \<and>
   (\<exists>db1 db2.
      addItem \<lparr>items = [(''iron-plate'', [(''normal'', Count (Num 7))])]\<rparr>
        (String ''iron-plate'') (Number (Num 3)) (String ''normal'') = Inr db1 \<and>
      removeItem db1 (String ''iron-plate'') (Number (Num 3)) (String ''normal'') = Inr db2 \<and>
      getItemCount db2 (String ''iron-plate'') (String ''normal'') =
        getItemCount \<lparr>items = [(''iron-plate'', [(''normal'', Count (Num 7))])]\<rparr>
          (String ''iron-plate'') (String ''normal''))"
proof -
  have h1: "or_zero (item_get \<lparr>items = [(''iron-plate'', [(''normal'', Count (Num 7))])]\<rparr>
      ''iron-plate'' ''normal'') = Held (Count (Num 7))"
    by (simp add: item_get_def record_get_def map_get_def obj_get_def)
  have h2: "safe_integer 7" "safe_integer 3" "safe_integer (7 + 3)"
    by (simp_all add: safe_integer_def MAX_SAFE_INTEGER_def)
  from add_then_remove_restores_count [OF h1 h2] h1 h2 show ?thesis by blast
qed

lemma round_double_example: "round_double (1 + 9007199254740992) = Num 9007199254740992"
  by code_simp

text \<open>The claim as stated fails where a sum is not a double: with 1 stored, adding and
  removing \<open>2 ^ 53\<close> leaves 0.\<close>

theorem add_then_remove_rounding_counterexample:
  "checkCount (Number (Num 9007199254740992)) = Inr (Num 9007199254740992) \<and>
   getItemCount \<lparr>items = [(''a'', [(''q'', Count (Num 1))])]\<rparr> (String ''a'') (String ''q'')
     = Inr (Held (Count (Num 1))) \<and>
   addItem \<lparr>items = [(''a'', [(''q'', Count (Num 1))])]\<rparr>
       (String ''a'') (Number (Num 9007199254740992)) (String ''q'')
     = Inr \<lparr>items = [(''a'', [(''q'', Count (Num 9007199254740992))])]\<rparr> \<and>
   removeItem \<lparr>items = [(''a'', [(''q'', Count (Num 9007199254740992))])]\<rparr>
       (String ''a'') (Number (Num 9007199254740992)) (String ''q'')
     = Inr \<lparr>items = [(''a'', [(''q'', Count (Num 0))])]\<rparr> \<and>
   getItemCount \<lparr>items = [(''a'', [(''q'', Count (Num 0))])]\<rparr> (String ''a'') (String ''q'')
     = Inr (Held (Count (Num 0)))"
  using round_double_example
  by (simp add: checkCount_def checkName_def checkQuality_def getItemCount_def addItem_def
      removeItem_def add_checked_def item_get_def record_get_def map_has_def map_get_def
      map_set_def obj_get_def obj_set_def obj_assign_def round_double_0)

text \<open>\<open>Infinity\<close> passes \<open>checkCount\<close>: with 5 stored, adding and removing it leaves \<open>NaN\<close>,
  which \<open>getItemCount\<close> reports as 0.\<close>

lemma add_then_remove_infinity:
  "checkCount (Number PosInf) = Inr PosInf \<and>
   getItemCount \<lparr>items = [(''a'', [(''q'', Count (Num 5))])]\<rparr> (String ''a'') (String ''q'')
     = Inr (Held (Count (Num 5))) \<and>
   addItem \<lparr>items = [(''a'', [(''q'', Count (Num 5))])]\<rparr> (String ''a'') (Number PosInf) (String ''q'')
     = Inr \<lparr>items = [(''a'', [(''q'', Count PosInf)])]\<rparr> \<and>
   removeItem \<lparr>items = [(''a'', [(''q'', Count PosInf)])]\<rparr> (String ''a'') (Number PosInf) (String ''q'')
     = Inr \<lparr>items = [(''a'', [(''q'', Count NaN)])]\<rparr> \<and>
   getItemCount \<lparr>items = [(''a'', [(''q'', Count NaN)])]\<rparr> (String ''a'') (String ''q'')
     = Inr (Held (Count (Num 0)))"
  by (simp add: checkCount_def checkName_def checkQuality_def getItemCount_def addItem_def
      removeItem_def add_checked_def item_get_def record_get_def map_has_def map_get_def
      map_set_def obj_get_def obj_set_def obj_assign_def)

text \<open>
  Claim C5, at a quality that names a method of \<open>Object.prototype\<close>. On the ledger
  \<open>{wood: {normal: 5}}\<close>, built by one \<open>addItem\<close> on the empty ledger, the record of
  \<open>"wood"\<close> has no property \<open>"toString"\<close>, and \<open>getItemCount("wood", "toString")\<close> returns
  the inherited function, not 0.
\<close>

theorem getItemCount_inherited_quality:
  "addItem empty_db (String ''wood'') (Number (Num 5)) (String ''normal'')
     = Inr \<lparr>items = [(''wood'', [(''normal'', Count (Num 5))])]\<rparr> \<and>
   stored \<lparr>items = [(''wood'', [(''normal'', Count (Num 5))])]\<rparr> ''wood'' ''toString'' = None \<and>
   getItemCount \<lparr>items = [(''wood'', [(''normal'', Count (Num 5))])]\<rparr>
       (String ''wood'') (String ''toString'')
     = Inr (Method ''toString'')"
  by (simp add: addItem_strings add_checked_def empty_db_def map_has_def map_set_def
      obj_set_def is_array_index_def is_digit_def stored_def getItemCount_strings item_get_def
      record_get_def map_get_def obj_get_def object_prototype_methods_def)

subsection \<open>Serialization\<close>














subsection \<open>Serialize, reconstruct, serialize\<close>

text \<open>
  Claim C9, on a ledger that the public operations build.  After \<open>addItem("a", Infinity,
  "q")\<close> and \<open>removeItem("a", Infinity, "q")\<close> on an empty ledger the count is \<open>NaN\<close>;
  \<open>serialize\<close> returns it, and the constructor rejects that snapshot with "count must be
  a number", so there is no second serialization.  After \<open>addItem("wood", 5, "__proto__")\<close>
  on an empty ledger \<open>serialize\<close> returns \<open>{wood: {}}\<close>, the ledger built from it
  serializes to \<open>{}\<close>.
\<close>

theorem serialize_reconstruct_diverges:
  "addItem empty_db (String ''a'') (Number PosInf) (String ''q'')
     = Inr \<lparr>items = [(''a'', [(''q'', Count PosInf)])]\<rparr> \<and>
   removeItem \<lparr>items = [(''a'', [(''q'', Count PosInf)])]\<rparr> (String ''a'') (Number PosInf) (String ''q'')
     = Inr \<lparr>items = [(''a'', [(''q'', Count NaN)])]\<rparr> \<and>
   serialize \<lparr>items = [(''a'', [(''q'', Count NaN)])]\<rparr> = Returned [(''a'', [(''q'', Count NaN)])] \<and>
   constructor (Some (snapshot_of [(''a'', [(''q'', Count NaN)])])) = Inl CountNotNumber \<and>
   addItem empty_db (String ''wood'') (Number (Num 5)) (String ''__proto__'')
     = Inr \<lparr>items = [(''wood'', [(''__proto__'', Count (Num 5))])]\<rparr> \<and>
   serialize \<lparr>items = [(''wood'', [(''__proto__'', Count (Num 5))])]\<rparr> = Returned [(''wood'', [])] \<and>
   constructor (Some (snapshot_of [(''wood'', [])])) = Inr \<lparr>items = [(''wood'', [])]\<rparr> \<and>
   serialize \<lparr>items = [(''wood'', [])]\<rparr> = Returned []"
  by (simp add: checkCount_def checkName_def checkQuality_def addItem_def
      removeItem_def add_checked_def empty_db_def record_get_def map_has_def map_get_def
      map_set_def obj_get_def obj_set_def obj_assign_def serialize_def inherited_key_def
      object_prototype_methods_def constructor_def snapshot_of_def is_array_index_def is_digit_def)

text \<open>A quality named like a method of \<open>Object.prototype\<close>: on a record without such a
  property \<open>addItem\<close> reads the inherited function, and \<open>+\<close> concatenates its source text
  with the count.\<close>

lemma addItem_inherited_quality:
  "addItem \<lparr>items = [(''wood'', [(''normal'', Count (Num 5))])]\<rparr>
       (String ''wood'') (Number (Num 1)) (String ''toString'')
     = Inr \<lparr>items = [(''wood'', [(''normal'', Count (Num 5)),
          (''toString'', Chars ''function toString() { [native code] }1'')])]\<rparr> \<and>
   removeItem \<lparr>items = [(''wood'', [(''normal'', Count (Num 5)),
          (''toString'', Chars ''function toString() { [native code] }1'')])]\<rparr>
       (String ''wood'') (Number (Num 1)) (String ''toString'')
     = Inr \<lparr>items = [(''wood'', [(''normal'', Count (Num 5)),
          (''toString'', Chars ''function toString() { [native code] }1-1'')])]\<rparr>"
  by (simp add: checkCount_def checkName_def checkQuality_def addItem_def
      removeItem_def add_checked_def record_get_def map_has_def map_get_def
      map_set_def obj_get_def obj_set_def obj_assign_def
      object_prototype_methods_def is_array_index_def is_digit_def function_source_def
      positive_to_string_def digit_char_def round_double_def)

section \<open>Properties of the map codec\<close>

subsection \<open>Loading an object file\<close>

lemma basicType_from_json_not_object:
  "(\<forall>ms. j \<noteq> JObject ms) \<Longrightarrow> basicType (from_json j) \<noteq> ''object''"
  by (cases j) simp_all

lemma catch_ENOENT_Inl: "catch_ENOENT (Inl e) = (if err_code e = Some ''ENOENT'' then Inr [] else Inl e)"
  by (simp add: catch_ENOENT_def)

lemma catch_ENOENT_Inr: "catch_ENOENT (Inr m) = Inr m"
  by (simp add: catch_ENOENT_def)

text \<open>
  Claim C6. \<open>loadJsonAsMap\<close> returns an empty map when the path does not exist; a read
  failure with any other error code and a parse failure are rethrown as they are; a text
  that parses to anything but an object (an array, a scalar, \<open>null\<close>) is rejected with
  "Expected object but got ..."; and an object is returned as the map of its properties.
\<close>

theorem loadJsonAsMap_failures:
  "(fs filePath = Absent \<longrightarrow> loadJsonAsMap fs filePath = Inr []) \<and>
   (\<forall>code. readFile fs filePath = Inl (IOError code) \<and> code \<noteq> ''ENOENT'' \<longrightarrow>
      loadJsonAsMap fs filePath = Inl (IOError code)) \<and>
   (fs filePath = File Malformed \<longrightarrow> loadJsonAsMap fs filePath = Inl SyntaxError) \<and>
   (\<forall>indent j. fs filePath = File (Document indent j) \<and> (\<forall>ms. j \<noteq> JObject ms) \<longrightarrow>
      loadJsonAsMap fs filePath = Inl (ExpectedObject (basicType (from_json j))) \<and>
      FormatError (ExpectedObject (basicType (from_json j)))) \<and>
   (\<forall>indent ms. fs filePath = File (Document indent (JObject ms)) \<longrightarrow>
      loadJsonAsMap fs filePath = Inr (new_Map (Object_entries (from_json_members [] ms))))"
proof (intro conjI allI impI)
  assume "fs filePath = Absent"
  then show "loadJsonAsMap fs filePath = Inr []"
    by (simp add: loadJsonAsMap_def readFile_def catch_ENOENT_Inl)
next
  fix code assume "readFile fs filePath = Inl (IOError code) \<and> code \<noteq> ''ENOENT''"
  then show "loadJsonAsMap fs filePath = Inl (IOError code)"
    by (simp add: loadJsonAsMap_def catch_ENOENT_Inl)
next
  assume "fs filePath = File Malformed"
  then show "loadJsonAsMap fs filePath = Inl SyntaxError"
    by (simp add: loadJsonAsMap_def readFile_def JSON_parse_def catch_ENOENT_Inl)
next
  fix indent j assume a: "fs filePath = File (Document indent j) \<and> (\<forall>ms. j \<noteq> JObject ms)"
  then have "basicType (from_json j) \<noteq> ''object''"
    by (simp add: basicType_from_json_not_object)
  with a show "loadJsonAsMap fs filePath = Inl (ExpectedObject (basicType (from_json j)))"
    by (simp add: loadJsonAsMap_def readFile_def JSON_parse_def catch_ENOENT_Inl)
next
  fix indent j
  show "FormatError (ExpectedObject (basicType (from_json j)))" by simp
next
  fix indent ms assume "fs filePath = File (Document indent (JObject ms))"
  then show "loadJsonAsMap fs filePath = Inr (new_Map (Object_entries (from_json_members [] ms)))"
    by (simp add: loadJsonAsMap_def readFile_def JSON_parse_def catch_ENOENT_Inr)
qed

theorem loadJsonAsMap_failures_witness:
  "loadJsonAsMap fs0 ''/nonexistent/path.json'' = Inr [] \<and>
   loadJsonAsMap fs0 ''/db/locked.json'' = Inl (IOError ''EACCES'') \<and>
   loadJsonAsMap fs0 ''/db/broken.json'' = Inl SyntaxError \<and>
   loadJsonAsMap fs0 ''/db/list.json'' = Inl (ExpectedObject ''array'') \<and>
   loadJsonAsMap fs0 ''/db/users.json'' = Inr [(String ''b'', Number (Num 1)), (String ''a'', Null)]"
proof -
  have 1: "fs0 ''/nonexistent/path.json'' = Absent" by (simp add: fs0_def)
  have 2: "readFile fs0 ''/db/locked.json'' = Inl (IOError ''EACCES'') \<and> ''EACCES'' \<noteq> ''ENOENT''"
    by (simp add: fs0_def readFile_def)
  have 3: "fs0 ''/db/broken.json'' = File Malformed" by (simp add: fs0_def)
  have 4: "fs0 ''/db/list.json'' = File (Document [CHR 0x09] (JArray [JNumber 1, JNumber 2, JNumber 3]))
      \<and> (\<forall>ms. JArray [JNumber 1, JNumber 2, JNumber 3] \<noteq> JObject ms)"
    by (simp add: fs0_def)
  have 5: "fs0 ''/db/users.json'' = File (Document [CHR 0x09] (JObject [(''b'', JNumber 1), (''a'', JNull)]))"
    by (simp add: fs0_def)
  have 6: "new_Map (Object_entries (from_json_members [] [(''b'', JNumber 1), (''a'', JNull)]))
      = [(String ''b'', Number (Num 1)), (String ''a'', Null)]"
    by (simp add: new_Map_def Object_entries_def obj_set_def is_array_index_def is_digit_def
        round_double_def jsmap_set_def same_value_zero_def)
  from loadJsonAsMap_failures [of fs0 "''/nonexistent/path.json''"] 1
    loadJsonAsMap_failures [of fs0 "''/db/locked.json''"] 2
    loadJsonAsMap_failures [of fs0 "''/db/broken.json''"] 3
    loadJsonAsMap_failures [of fs0 "''/db/list.json''"] 4
    loadJsonAsMap_failures [of fs0 "''/db/users.json''"] 5 6
  show ?thesis by simp
qed

subsection \<open>Loading an array file\<close>
















subsection \<open>Own-property order is kept by assignment\<close>

lemma map_of_fresh: "k \<notin> set (map fst ps) \<Longrightarrow> map_of ps k = None"
  by (simp add: map_of_eq_None_iff)

lemma keys_ins_index_set: "set (ins_index k v ps) = insert (k, v) (set ps)"
  by (induction ps) (auto split: if_splits)

lemma distinct_ins_index:
  "distinct (map fst ps) \<Longrightarrow> k \<notin> set (map fst ps) \<Longrightarrow> distinct (map fst (ins_index k v ps))"
  by (induction ps) (auto simp: keys_ins_index_set image_iff)

lemma js_ordered_tail: "js_ordered (k # ks) \<Longrightarrow> js_ordered ks"
  by (cases ks) auto

lemma js_ordered_snoc_plain:
  "js_ordered ks \<Longrightarrow> \<not> is_array_index k \<Longrightarrow> js_ordered (ks @ [k])"
  by (induction ks rule: js_ordered.induct) auto

lemma js_ordered_ins_index:
  "js_ordered (map fst ps) \<Longrightarrow> is_array_index k \<Longrightarrow> js_ordered (map fst (ins_index k v ps))"
proof (induction ps)
  case Nil
  show ?case by simp
next
  case (Cons p ps)
  obtain k' v' where p: "p = (k', v')" by (cases p)
  from Cons.prems(1) have t: "js_ordered (map fst ps)"
    by (auto dest: js_ordered_tail)
  show ?case
  proof (cases "is_array_index k' \<and> int_of_digits k' \<le> int_of_digits k")
    case True
    have ih: "js_ordered (map fst (ins_index k v ps))"
      using Cons.IH [OF t Cons.prems(2)] .
    show ?thesis
    proof (cases ps)
      case Nil
      with True Cons.prems(2) show ?thesis by (simp add: p)
    next
      case (Cons p2 ps2)
      obtain k2 v2 where p2: "p2 = (k2, v2)" by (cases p2)
      from ih Cons.prems True \<open>js_ordered (map fst (p # ps))\<close> show ?thesis
        by (auto simp: p p2 Cons)
    qed
  next
    case False
    with Cons.prems show ?thesis by (auto simp: p)
  qed
qed

lemma nf_obj_obj_set: "nf_obj ps \<Longrightarrow> nf_obj (obj_set ps k v)"
proof (cases "map_of ps k")
  case None
  assume nf: "nf_obj ps"
  from None have nk: "k \<notin> set (map fst ps)"
    by (simp add: map_of_eq_None_iff)
  show ?thesis
  proof (cases "is_array_index k")
    case True
    with nf nk None show ?thesis
      by (simp add: nf_obj_def obj_set_def distinct_ins_index js_ordered_ins_index del: set_map)
  next
    case False
    with nf nk None show ?thesis
      by (simp add: nf_obj_def obj_set_def js_ordered_snoc_plain)
  qed
next
  case (Some a)
  assume "nf_obj ps"
  with Some show ?thesis
    by (simp add: nf_obj_def obj_set_def map_fst_replace del: map_map)
qed

lemma nf_obj_Nil: "nf_obj []"
  by (simp add: nf_obj_def)

lemma ins_index_snoc:
  "list_all (\<lambda>p. is_array_index (fst p) \<and> int_of_digits (fst p) \<le> int_of_digits k) ps \<Longrightarrow>
     ins_index k v ps = ps @ [(k, v)]"
  by (induction ps) auto

lemma js_ordered_snoc_index:
  "js_ordered (ks @ [k]) \<Longrightarrow> is_array_index k \<Longrightarrow>
     list_all (\<lambda>k'. is_array_index k' \<and> int_of_digits k' \<le> int_of_digits k) ks"
proof (induction ks)
  case Nil
  show ?case by simp
next
  case (Cons k1 ks)
  from Cons.prems(1) have "js_ordered (ks @ [k])"
    by (auto dest: js_ordered_tail)
  from Cons.IH [OF this Cons.prems(2)]
  have ih: "list_all (\<lambda>k'. is_array_index k' \<and> int_of_digits k' \<le> int_of_digits k) ks" .
  show ?case
  proof (cases ks)
    case Nil
    with Cons.prems show ?thesis by simp
  next
    case (Cons k2 ks2)
    with ih Cons.prems \<open>js_ordered ((k1 # ks) @ [k])\<close> show ?thesis by auto
  qed
qed

lemma js_ordered_prefix: "js_ordered (a @ b) \<Longrightarrow> js_ordered a"
proof (induction a rule: js_ordered.induct)
  case (3 k k' ks)
  then show ?case by (cases b) auto
qed simp_all

lemma nf_obj_prefix: "nf_obj (a @ b) \<Longrightarrow> nf_obj a"
  by (auto simp: nf_obj_def dest: js_ordered_prefix)

lemma obj_set_snoc: "nf_obj (ps @ [(k, v)]) \<Longrightarrow> obj_set ps k v = ps @ [(k, v)]"
proof -
  assume nf: "nf_obj (ps @ [(k, v)])"
  then have nk: "map_of ps k = None"
    by (auto simp: nf_obj_def map_of_eq_None_iff)
  show ?thesis
  proof (cases "is_array_index k")
    case True
    from nf have "js_ordered (map fst ps @ [k])" by (simp add: nf_obj_def)
    from js_ordered_snoc_index [OF this True]
    have "list_all (\<lambda>p. is_array_index (fst p) \<and> int_of_digits (fst p) \<le> int_of_digits k) ps"
      by (simp add: list_all_iff)
    with nk True show ?thesis by (simp add: obj_set_def ins_index_snoc)
  next
    case False
    with nk show ?thesis by (simp add: obj_set_def)
  qed
qed

subsection \<open>Saving an object file\<close>

lemma set_obj_set_fresh:
  "k \<notin> set (map fst ps) \<Longrightarrow> set (obj_set ps k v) = insert (k, v) (set ps)"
  by (simp add: obj_set_def map_of_fresh keys_ins_index_set)

lemma length_ins_index: "length (ins_index k v ps) = Suc (length ps)"
  by (induction ps) auto

lemma length_obj_set_fresh:
  "k \<notin> set (map fst ps) \<Longrightarrow> length (obj_set ps k v) = Suc (length ps)"
  by (simp add: obj_set_def map_of_fresh length_ins_index)

lemma keys_obj_set_fresh:
  "k \<notin> set (map fst ps) \<Longrightarrow> set (map fst (obj_set ps k v)) = insert k (set (map fst ps))"
  using set_obj_set_fresh [of k ps v] by simp

lemma typeof_string: "(typeof v = ''string'') = (\<exists>s. v = String s)"
  by (cases v) simp_all

lemma mapToObject_loop_fails:
  "\<not> string_keys m \<Longrightarrow> \<exists>e. mapToObject_loop obj m = Inl e \<and> ValidationError e"
proof (induction m arbitrary: obj)
  case Nil
  then show ?case by (simp add: string_keys_def)
next
  case (Cons kv m)
  show ?case
  proof (cases "fst kv")
    case (String s)
    with Cons.prems have "\<not> string_keys m" by (simp add: string_keys_def)
    from Cons.IH [OF this] String show ?thesis by simp
  qed simp_all
qed

lemma filter_plain_ins_index:
  "is_array_index k \<Longrightarrow> filter plain_key (ins_index k v ps) = filter plain_key ps"
  by (induction ps) (auto simp: plain_key_def)

lemma filter_plain_obj_set_fresh:
  "k \<notin> set (map fst ps) \<Longrightarrow>
   filter plain_key (obj_set ps k v) =
     filter plain_key ps @ (if is_array_index k then [] else [(k, v)])"
  by (simp add: obj_set_def map_of_fresh filter_plain_ins_index) (simp add: plain_key_def)

lemma obj_assign_plain: "k \<noteq> ''__proto__'' \<Longrightarrow> obj_assign ps k v = obj_set ps k v"
  by (simp add: obj_assign_def)

lemma mapToObject_loop_ok:
  "string_keys m \<Longrightarrow> distinct (map fst m) \<Longrightarrow> proto_free m \<Longrightarrow> nf_obj obj \<Longrightarrow>
   list_all (\<lambda>kv. string_of (fst kv) \<notin> set (map fst obj)) m \<Longrightarrow>
   \<exists>obj'. mapToObject_loop obj m = Inr obj' \<and> nf_obj obj' \<and>
          set obj' = set obj \<union> set (string_keyed m) \<and>
          length obj' = length obj + length m \<and>
          filter plain_key obj' = filter plain_key obj @ filter plain_key (string_keyed m)"
proof (induction m arbitrary: obj)
  case Nil
  then show ?case by (simp add: string_keyed_def)
next
  case (Cons kv m)
  from Cons.prems(1) obtain s where s: "fst kv = String s"
    by (auto simp: string_keys_def typeof_string)
  from Cons.prems(3) s have np: "s \<noteq> ''__proto__''" by (simp add: proto_free_def)
  let ?obj1 = "obj_set obj s (snd kv)"
  from Cons.prems(5) have fresh: "s \<notin> set (map fst obj)" by (simp add: s)
  have 1: "string_keys m" using Cons.prems(1) by (simp add: string_keys_def)
  have 2: "distinct (map fst m)" using Cons.prems(2) by simp
  have pf: "proto_free m" using Cons.prems(3) by (simp add: proto_free_def)
  have 3: "nf_obj ?obj1" using Cons.prems(4) by (rule nf_obj_obj_set)
  have "string_of (fst kv') \<noteq> s" if "kv' \<in> set m" for kv'
  proof -
    from that 1 obtain s' where s': "fst kv' = String s'"
      by (auto simp: string_keys_def typeof_string list_all_iff)
    from that Cons.prems(2) have "fst kv' \<noteq> fst kv" by (auto simp: image_iff)
    with s s' show ?thesis by simp
  qed
  with Cons.prems(5) have 4: "list_all (\<lambda>kv. string_of (fst kv) \<notin> set (map fst ?obj1)) m"
    by (auto simp: keys_obj_set_fresh [OF fresh] list_all_iff simp del: set_map)
  from Cons.IH [OF 1 2 pf 3 4] obtain obj' where
    o: "mapToObject_loop ?obj1 m = Inr obj'" "nf_obj obj'"
    "set obj' = set ?obj1 \<union> set (string_keyed m)"
    "length obj' = length ?obj1 + length m"
    "filter plain_key obj' = filter plain_key ?obj1 @ filter plain_key (string_keyed m)"
    by blast
  have a: "mapToObject_loop obj (kv # m) = Inr obj'"
    using o(1) s by (simp add: obj_assign_plain [OF np])
  have b: "set obj' = set obj \<union> set (string_keyed (kv # m))"
    using o(3) s by (auto simp: set_obj_set_fresh [OF fresh] string_keyed_def)
  have c: "length obj' = length obj + length (kv # m)"
    using o(4) by (simp add: length_obj_set_fresh [OF fresh])
  have d: "filter plain_key obj' =
      filter plain_key obj @ filter plain_key (string_keyed (kv # m))"
    using o(5) s by (simp add: filter_plain_obj_set_fresh [OF fresh] string_keyed_def plain_key_def)
  from a o(2) b c d show ?case by blast
qed

lemma mapToObject_fails:
  "\<not> string_keys m \<Longrightarrow> \<exists>e. mapToObject m = Inl e \<and> ValidationError e"
  unfolding mapToObject_def by (rule mapToObject_loop_fails)

lemma mapToObject_ok:
  assumes "string_keys m" and "distinct (map fst m)" and "proto_free m"
  shows "\<exists>obj. mapToObject m = Inr obj \<and> nf_obj obj \<and> set obj = set (string_keyed m) \<and>
           length obj = length m \<and> filter plain_key obj = filter plain_key (string_keyed m)"
proof -
  have "nf_obj ([] :: (string \<times> jsval) list)" by (rule nf_obj_Nil)
  from mapToObject_loop_ok [OF assms this] show ?thesis
    by (simp add: mapToObject_def list_all_iff)
qed

lemma mapToObject_plain:
  assumes "string_keys m" and "distinct (map fst m)" and "proto_free m"
    and "list_all (\<lambda>kv. \<not> is_array_index (string_of (fst kv))) m"
  shows "mapToObject m = Inr (string_keyed m)"
proof -
  from mapToObject_ok [OF assms(1-3)] obtain obj where
    obj: "mapToObject m = Inr obj" "set obj = set (string_keyed m)"
    "filter plain_key obj = filter plain_key (string_keyed m)"
    by blast
  from assms(4) have p: "\<forall>kv \<in> set (string_keyed m). plain_key kv"
    by (auto simp: string_keyed_def plain_key_def list_all_iff)
  then have "filter plain_key (string_keyed m) = string_keyed m" by simp
  moreover from p obj(2) have "filter plain_key obj = obj" by simp
  ultimately show ?thesis using obj(1,3) by simp
qed

lemma json_roundtrip:
  "(json_value v \<longrightarrow> (\<exists>j. to_json v = Some j \<and> from_json j = v))"
  "(json_values vs \<longrightarrow> from_json_elements (to_json_elements vs) = vs)"
  "(json_properties ps \<longrightarrow>
      (\<forall>obj. nf_obj (obj @ ps) \<longrightarrow> from_json_members obj (to_json_properties ps) = obj @ ps))"
proof (induction v and vs and ps rule: json_value_json_values_json_properties.induct)
  case (4 n)
  show ?case by (cases n) simp_all
next
  case (7 ps)
  then show ?case by auto
next
  case (9 v vs)
  then show ?case by auto
next
  case (11 kv ps)
  show ?case
  proof (intro impI allI)
    fix obj
    assume jp: "json_properties (kv # ps)" and nf: "nf_obj (obj @ kv # ps)"
    from jp 11 obtain j where j: "to_json (snd kv) = Some j" "from_json j = snd kv"
      by auto
    from nf have "nf_obj ((obj @ [(fst kv, snd kv)]) @ ps)" by simp
    then have "nf_obj (obj @ [(fst kv, snd kv)])" by (rule nf_obj_prefix)
    then have 1: "obj_set obj (fst kv) (snd kv) = obj @ [kv]"
      by (simp add: obj_set_snoc)
    from jp 11 nf have "from_json_members (obj @ [kv]) (to_json_properties ps) = (obj @ [kv]) @ ps"
      by simp
    with j 1 show "from_json_members obj (to_json_properties (kv # ps)) = obj @ kv # ps"
      by simp
  qed
qed simp_all

lemma json_properties_iff: "json_properties ps = list_all (\<lambda>kv. json_value (snd kv)) ps"
  by (induction ps) auto

lemma parse_stringify_object:
  "nf_obj obj \<Longrightarrow> json_properties obj \<Longrightarrow>
     JSON_parse (JSON_stringify obj indent) = Inr (Object obj)"
  using json_roundtrip(3) [of obj] nf_obj_Nil
  by (simp add: JSON_parse_def JSON_stringify_def)

text \<open>
  Claim C8, with the order the code produces. When some key of the map is not a string,
  \<open>saveMapAsJson\<close> throws "Expected all keys to be string ..." and the file system is
  unchanged. When all keys are strings and none is \<open>__proto__\<close>, it writes to the path the
  tab-indented \<open>JSON.stringify\<close> text of the object that has exactly the entries of the
  map as own properties, in own-property order: the keys that are array indices first, in
  ascending numeric order, then the other keys in the map's iteration order.  When every
  value of the map is JSON-serializable, the written text parses back to that object.
  When no key is an array index the object lists the entries in the map's iteration
  order.
\<close>

theorem saveMapAsJson_result:
  "(\<not> string_keys m \<longrightarrow>
      (\<exists>e. saveMapAsJson fs filePath m = (Some e, fs) \<and> ValidationError e)) \<and>
   (string_keys m \<and> distinct (map fst m) \<and> proto_free m \<longrightarrow>
      (\<exists>obj. nf_obj obj \<and> set obj = set (string_keyed m) \<and> length obj = length m \<and>
         filter plain_key obj = filter plain_key (string_keyed m) \<and>
         saveMapAsJson fs filePath m =
           (None, fs(filePath := File (Document [CHR 0x09] (JObject (to_json_properties obj))))) \<and>
         (list_all (\<lambda>kv. json_value (snd kv)) m \<longrightarrow>
            JSON_parse (Document [CHR 0x09] (JObject (to_json_properties obj))) = Inr (Object obj)))) \<and>
   (string_keys m \<and> distinct (map fst m) \<and> proto_free m \<and>
    list_all (\<lambda>kv. \<not> is_array_index (string_of (fst kv))) m \<longrightarrow>
      saveMapAsJson fs filePath m =
        (None, fs(filePath := File (Document [CHR 0x09] (JObject (to_json_properties (string_keyed m)))))))"
proof (intro conjI impI)
  assume "\<not> string_keys m"
  from mapToObject_fails [OF this]
  show "\<exists>e. saveMapAsJson fs filePath m = (Some e, fs) \<and> ValidationError e"
    by (auto simp: saveMapAsJson_def)
next
  assume "string_keys m \<and> distinct (map fst m) \<and> proto_free m"
  then obtain obj where obj: "mapToObject m = Inr obj" "nf_obj obj"
    "set obj = set (string_keyed m)" "length obj = length m"
    "filter plain_key obj = filter plain_key (string_keyed m)"
    using mapToObject_ok by blast
  have w: "saveMapAsJson fs filePath m =
      (None, fs(filePath := File (Document [CHR 0x09] (JObject (to_json_properties obj)))))"
    using obj(1) by (simp add: saveMapAsJson_def safeOutputFile_def JSON_stringify_def)
  have p: "JSON_parse (Document [CHR 0x09] (JObject (to_json_properties obj))) = Inr (Object obj)"
    if "list_all (\<lambda>kv. json_value (snd kv)) m"
  proof -
    from that obj(3) have "json_properties obj"
      by (auto simp: json_properties_iff list_all_iff string_keyed_def)
    from parse_stringify_object [OF obj(2) this, of "[CHR 0x09]"] show ?thesis
      by (simp add: JSON_stringify_def)
  qed
  from obj(2-5) w p
  show "\<exists>obj. nf_obj obj \<and> set obj = set (string_keyed m) \<and> length obj = length m \<and>
         filter plain_key obj = filter plain_key (string_keyed m) \<and>
         saveMapAsJson fs filePath m =
           (None, fs(filePath := File (Document [CHR 0x09] (JObject (to_json_properties obj))))) \<and>
         (list_all (\<lambda>kv. json_value (snd kv)) m \<longrightarrow>
            JSON_parse (Document [CHR 0x09] (JObject (to_json_properties obj))) = Inr (Object obj))"
    by blast
next
  assume "string_keys m \<and> distinct (map fst m) \<and> proto_free m \<and>
    list_all (\<lambda>kv. \<not> is_array_index (string_of (fst kv))) m"
  then have "mapToObject m = Inr (string_keyed m)"
    by (simp add: mapToObject_plain)
  then show "saveMapAsJson fs filePath m =
        (None, fs(filePath := File (Document [CHR 0x09] (JObject (to_json_properties (string_keyed m))))))"
    by (simp add: saveMapAsJson_def safeOutputFile_def JSON_stringify_def)
qed

theorem saveMapAsJson_result_witness:
  "saveMapAsJson (\<lambda>p. Absent) ''/db/map.json'' [(String ''a'', Null), (Number (Num 1), Null)]
     = (Some (KeyNotString ''number''), (\<lambda>p. Absent)) \<and>
   saveMapAsJson (\<lambda>p. Absent) ''/db/map.json''
       [(String ''b'', Number (Num 1)), (String ''a'', Array [Undefined, Bool True])]
     = (None, (\<lambda>p. Absent)(''/db/map.json'' := File (Document [CHR 0x09]
          (JObject [(''b'', JNumber 1), (''a'', JArray [JNull, JBool True])]))))"
proof -
  have 1: "\<not> string_keys [(String ''a'', Null), (Number (Num 1), Null)]"
    by (simp add: string_keys_def)
  have 2: "string_keys [(String ''b'', Number (Num 1)), (String ''a'', Array [Undefined, Bool True])] \<and>
     distinct (map fst [(String ''b'', Number (Num 1)), (String ''a'', Array [Undefined, Bool True])]) \<and>
     proto_free [(String ''b'', Number (Num 1)), (String ''a'', Array [Undefined, Bool True])] \<and>
     list_all (\<lambda>kv. \<not> is_array_index (string_of (fst kv)))
       [(String ''b'', Number (Num 1)), (String ''a'', Array [Undefined, Bool True])]"
    by (simp add: string_keys_def proto_free_def is_array_index_def is_digit_def)
  have 3: "saveMapAsJson (\<lambda>p. Absent) ''/db/map.json'' [(String ''a'', Null), (Number (Num 1), Null)]
     = (Some (KeyNotString ''number''), (\<lambda>p. Absent))"
    by (simp add: saveMapAsJson_def mapToObject_def)
  from saveMapAsJson_result [of "[(String ''b'', Number (Num 1)), (String ''a'', Array [Undefined, Bool True])]"
      "\<lambda>p. Absent" "''/db/map.json''"] 2
    saveMapAsJson_result [of "[(String ''a'', Null), (Number (Num 1), Null)]"
      "\<lambda>p. Absent" "''/db/map.json''"] 1 3
  show ?thesis by (simp add: string_keyed_def)
qed

text \<open>A map iterating \<open>"b"\<close> then \<open>"1"\<close> is written with \<open>"1"\<close> first.\<close>

theorem saveMapAsJson_order_counterexample:
  "map (\<lambda>kv. string_of (fst kv)) [(String ''b'', Number (Num 1)), (String ''1'', Number (Num 2))]
     = [''b'', ''1''] \<and>
   saveMapAsJson (\<lambda>p. Absent) ''/db/map.json''
       [(String ''b'', Number (Num 1)), (String ''1'', Number (Num 2))]
     = (None, (\<lambda>p. Absent)(''/db/map.json'' := File (Document [CHR 0x09]
          (JObject [(''1'', JNumber 2), (''b'', JNumber 1)]))))"
  by (simp add: saveMapAsJson_def mapToObject_def obj_assign_def obj_get_def obj_set_def
      is_array_index_def is_digit_def int_of_digits_def safeOutputFile_def JSON_stringify_def)

text \<open>An entry under the key \<open>__proto__\<close> is not written: the assignment reaches the
  prototype accessor and the object gets no property of that name.\<close>

lemma saveMapAsJson_proto_key:
  "saveMapAsJson (\<lambda>p. Absent) ''/db/map.json''
       [(String ''__proto__'', Number (Num 1)), (String ''a'', Number (Num 2))]
     = (None, (\<lambda>p. Absent)(''/db/map.json'' := File (Document [CHR 0x09]
          (JObject [(''a'', JNumber 2)]))))"
  by (simp add: saveMapAsJson_def mapToObject_def obj_assign_def obj_get_def obj_set_def
      is_array_index_def is_digit_def safeOutputFile_def JSON_stringify_def)

subsection \<open>Saving and loading again\<close>

lemma new_Map_fold_distinct:
  "distinct (map fst (m @ es)) \<Longrightarrow>
     foldl (\<lambda>m kv. jsmap_set m (fst kv) (snd kv)) m es = m @ es"
proof (induction es arbitrary: m)
  case Nil
  show ?case by simp
next
  case (Cons kv es)
  from Cons.prems have "\<not> list_ex (\<lambda>p. same_value_zero (fst p) (fst kv)) m"
    by (auto simp: list_ex_iff same_value_zero_def image_iff)
  then have "jsmap_set m (fst kv) (snd kv) = m @ [kv]"
    by (simp add: jsmap_set_def)
  moreover from Cons.prems have "distinct (map fst ((m @ [kv]) @ es))" by simp
  from Cons.IH [OF this]
  have "foldl (\<lambda>m kv. jsmap_set m (fst kv) (snd kv)) (m @ [kv]) es = (m @ [kv]) @ es" .
  ultimately show ?case by simp
qed

lemma new_Map_distinct: "distinct (map fst es) \<Longrightarrow> new_Map es = es"
  using new_Map_fold_distinct [of "[]" es] by (simp add: new_Map_def)

lemma distinct_Object_entries:
  "distinct (map fst obj) \<Longrightarrow> distinct (map fst (Object_entries obj))"
  by (simp add: Object_entries_def comp_def distinct_map inj_on_def)

lemma Object_entries_string_keyed: "string_keys m \<Longrightarrow> Object_entries (string_keyed m) = m"
proof (induction m)
  case Nil
  show ?case by (simp add: Object_entries_def string_keyed_def)
next
  case (Cons kv m)
  then obtain s where "fst kv = String s"
    by (auto simp: string_keys_def typeof_string)
  with Cons show ?case
    by (cases kv) (simp add: Object_entries_def string_keyed_def string_keys_def)
qed

lemma set_Object_entries:
  assumes "string_keys m" and "set obj = set (string_keyed m)"
  shows "set (Object_entries obj) = set m"
proof -
  have "set (Object_entries obj) = (\<lambda>kv. (String (fst kv), snd kv)) ` set obj"
    by (simp add: Object_entries_def)
  also have "\<dots> = set (Object_entries (string_keyed m))"
    by (simp add: assms(2) Object_entries_def)
  finally show ?thesis by (simp add: Object_entries_string_keyed [OF assms(1)])
qed

lemma loadJsonAsMap_written:
  assumes "nf_obj obj" and "json_properties obj"
  shows "loadJsonAsMap (fs(filePath := File (JSON_stringify obj indent))) filePath
           = Inr (Object_entries obj)"
proof -
  from assms(1) have "distinct (map fst (Object_entries obj))"
    by (simp add: nf_obj_def distinct_Object_entries)
  then have "new_Map (Object_entries obj) = Object_entries obj" by (rule new_Map_distinct)
  then show ?thesis
    by (simp add: loadJsonAsMap_def readFile_def parse_stringify_object [OF assms]
        catch_ENOENT_Inr)
qed

lemma filter_Object_entries:
  "filter (\<lambda>kv. \<not> is_array_index (string_of (fst kv))) (Object_entries obj) =
     Object_entries (filter plain_key obj)"
  by (induction obj) (simp_all add: Object_entries_def plain_key_def)

lemma filter_string_keyed:
  "filter plain_key (string_keyed m) =
     string_keyed (filter (\<lambda>kv. \<not> is_array_index (string_of (fst kv))) m)"
  by (induction m) (simp_all add: string_keyed_def plain_key_def)

lemma string_keys_filter: "string_keys m \<Longrightarrow> string_keys (filter P m)"
  by (simp add: string_keys_def list_all_iff)

text \<open>
  Claim C3, with the order the code produces. For a map with string keys, none of them
  \<open>__proto__\<close>, and JSON-serializable values, saving it and loading the path again
  succeeds and returns a map with the same entries (equal keys, equal values).  In the
  returned map the keys that are array indices come first, in ascending numeric order,
  and the other keys follow in the order of the saved map; so the entries are in the same
  order when no key is an array index.
\<close>

theorem save_then_load:
  assumes "string_keys m" and "distinct (map fst m)" and "proto_free m"
    and "list_all (\<lambda>kv. json_value (snd kv)) m"
  shows "\<exists>r. loadJsonAsMap (snd (saveMapAsJson fs filePath m)) filePath = Inr r \<and>
              set r = set m \<and> length r = length m \<and> distinct (map fst r) \<and>
              js_ordered (map (\<lambda>kv. string_of (fst kv)) r) \<and>
              filter (\<lambda>kv. \<not> is_array_index (string_of (fst kv))) r =
                filter (\<lambda>kv. \<not> is_array_index (string_of (fst kv))) m \<and>
              (list_all (\<lambda>kv. \<not> is_array_index (string_of (fst kv))) m \<longrightarrow> r = m)"
proof -
  from mapToObject_ok [OF assms(1-3)] obtain obj where
    obj: "mapToObject m = Inr obj" "nf_obj obj" "set obj = set (string_keyed m)"
    "length obj = length m" "filter plain_key obj = filter plain_key (string_keyed m)"
    by blast
  from assms(4) obj(3) have jp: "json_properties obj"
    by (auto simp: json_properties_iff list_all_iff string_keyed_def)
  have w: "snd (saveMapAsJson fs filePath m) = fs(filePath := File (JSON_stringify obj [CHR 0x09]))"
    by (simp add: saveMapAsJson_def obj(1) safeOutputFile_def)
  have l: "loadJsonAsMap (snd (saveMapAsJson fs filePath m)) filePath = Inr (Object_entries obj)"
    unfolding w using obj(2) jp by (rule loadJsonAsMap_written)
  have "set (Object_entries obj) = set m"
    using assms(1) obj(3) by (rule set_Object_entries)
  moreover have "length (Object_entries obj) = length m"
    by (simp add: Object_entries_def obj(4))
  moreover have "distinct (map fst (Object_entries obj))"
    using obj(2) by (simp add: nf_obj_def distinct_Object_entries)
  moreover have "js_ordered (map (\<lambda>kv. string_of (fst kv)) (Object_entries obj))"
  proof -
    have "map (\<lambda>kv. string_of (fst kv)) (Object_entries obj) = map fst obj"
      by (simp add: Object_entries_def comp_def)
    with obj(2) show ?thesis by (simp add: nf_obj_def)
  qed
  moreover have "filter (\<lambda>kv. \<not> is_array_index (string_of (fst kv))) (Object_entries obj) =
      filter (\<lambda>kv. \<not> is_array_index (string_of (fst kv))) m"
    unfolding filter_Object_entries obj(5) filter_string_keyed
    by (rule Object_entries_string_keyed) (rule string_keys_filter [OF assms(1)])
  moreover have "Object_entries obj = m"
    if "list_all (\<lambda>kv. \<not> is_array_index (string_of (fst kv))) m"
  proof -
    from mapToObject_plain [OF assms(1-3) that] obj(1) have "obj = string_keyed m" by simp
    then show ?thesis by (simp add: Object_entries_string_keyed [OF assms(1)])
  qed
  ultimately show ?thesis using l by blast
qed

theorem save_then_load_witness:
  "string_keys [(String ''iron'', Object [(''1'', Number (Num 4)), (''x'', Null)]), (String ''wood'', Number (Num 5))] \<and>
   distinct (map fst [(String ''iron'', Object [(''1'', Number (Num 4)), (''x'', Null)]), (String ''wood'', Number (Num 5))]) \<and>
   proto_free [(String ''iron'', Object [(''1'', Number (Num 4)), (''x'', Null)]), (String ''wood'', Number (Num 5))] \<and>
   list_all (\<lambda>kv. json_value (snd kv))
     [(String ''iron'', Object [(''1'', Number (Num 4)), (''x'', Null)]), (String ''wood'', Number (Num 5))] \<and>
   loadJsonAsMap (snd (saveMapAsJson (\<lambda>p. Absent) ''/db/map.json''
        [(String ''iron'', Object [(''1'', Number (Num 4)), (''x'', Null)]), (String ''wood'', Number (Num 5))]))
      ''/db/map.json''
     = Inr [(String ''iron'', Object [(''1'', Number (Num 4)), (''x'', Null)]), (String ''wood'', Number (Num 5))]"
proof -
  let ?m = "[(String ''iron'', Object [(''1'', Number (Num 4)), (''x'', Null)]), (String ''wood'', Number (Num 5))]"
  have 1: "string_keys ?m" by (simp add: string_keys_def)
  have 2: "distinct (map fst ?m)" by simp
  have 3: "list_all (\<lambda>kv. json_value (snd kv)) ?m"
    by (simp add: nf_obj_def round_double_def is_array_index_def is_digit_def)
  have 4: "list_all (\<lambda>kv. \<not> is_array_index (string_of (fst kv))) ?m"
    by (simp add: is_array_index_def is_digit_def)
  have 5: "proto_free ?m" by (simp add: proto_free_def)
  from save_then_load [OF 1 2 5 3, of "\<lambda>p. Absent" "''/db/map.json''"] 4 1 2 3 5
  show ?thesis by auto
qed

text \<open>Saving a map that iterates \<open>"b"\<close> then \<open>"1"\<close> and loading it again returns a map
  that iterates \<open>"1"\<close> then \<open>"b"\<close>.\<close>

theorem save_then_load_order_counterexample:
  "loadJsonAsMap (snd (saveMapAsJson (\<lambda>p. Absent) ''/db/map.json''
        [(String ''b'', Number (Num 1)), (String ''1'', Number (Num 2))])) ''/db/map.json''
     = Inr [(String ''1'', Number (Num 2)), (String ''b'', Number (Num 1))]"
  by (simp add: saveMapAsJson_def mapToObject_def obj_assign_def obj_get_def obj_set_def
      is_array_index_def is_digit_def
      int_of_digits_def safeOutputFile_def JSON_stringify_def loadJsonAsMap_def readFile_def
      JSON_parse_def round_double_def catch_ENOENT_def new_Map_def Object_entries_def
      jsmap_set_def same_value_zero_def)

text \<open>Saving a map with an entry under \<open>__proto__\<close> and loading it again returns a map
  without that entry.\<close>

lemma save_then_load_proto_key:
  "loadJsonAsMap (snd (saveMapAsJson (\<lambda>p. Absent) ''/db/map.json''
        [(String ''__proto__'', Number (Num 1)), (String ''a'', Number (Num 2))])) ''/db/map.json''
     = Inr [(String ''a'', Number (Num 2))]"
  by (simp add: saveMapAsJson_def mapToObject_def obj_assign_def obj_get_def obj_set_def
      is_array_index_def is_digit_def
      int_of_digits_def safeOutputFile_def JSON_stringify_def loadJsonAsMap_def readFile_def
      JSON_parse_def round_double_def catch_ENOENT_def new_Map_def Object_entries_def
      jsmap_set_def same_value_zero_def)

end
